theory Spec2Isabelle
  imports Complex_Main "HOL-Library.Multiset"
begin

section \<open>Numbers\<close>

text \<open>
  Every quantity of the source is a JavaScript number, a double, and every
  arithmetic operation returns the double nearest to its exact result; the library
  functions \<open>Math.log\<close>, \<open>Math.pow\<close> and \<open>Math.sqrt\<close> are taken to do the same. The
  embedding takes the finite doubles as reals and gives each operation of the source
  its rounding: a function \<open>fl\<close>, applied to the exact result of every \<open>+\<close>, \<open>-\<close>,
  \<open>*\<close> and \<open>/\<close> and of every call of a library function, in the order and the
  grouping of the source. \<open>fl\<close> is a parameter of every function that computes. For the source as
  it runs \<open>fl\<close> is \<open>round_double\<close>, the rounding to the nearest double; the identity
  gives exact arithmetic. What is proved for every \<open>fl\<close> does not rest on the last bit
  of any result.

  A real cannot hold two results of the source: that of an operation whose exact
  result lies beyond the largest double, which is \<open>Infinity\<close>, and that of a division
  by zero, which is \<open>Infinity\<close> or \<open>NaN\<close> and is \<open>0\<close> in HOL. The statements below
  give the value of an operation only where neither happens.
\<close>

definition Q96 :: real where
  "Q96 = 2 ^ 96"

definition MIN_TICK :: int where
  "MIN_TICK = - 887272"

definition MAX_TICK :: int where
  "MAX_TICK = 887272"

text \<open>
  A decimal literal of the source is the double nearest to it. \<open>TICK_BASE\<close> is the
  literal \<open>1.0001\<close>, \<open>SMALL_AMOUNT\<close> the literal \<open>1e-10\<close> and \<open>FEE_MEDIUM\<close> the fee
  tier \<open>0.003\<close> (\<open>FEE_TIERS.MEDIUM\<close>, the default of the simulator). The literals
  \<open>1000\<close> and \<open>1e18\<close> are doubles as written.
\<close>

definition TICK_BASE :: real where
  "TICK_BASE = 4504049987333233 / 2 ^ 52"

definition SMALL_AMOUNT :: real where
  "SMALL_AMOUNT = 7737125245533627 / 2 ^ 86"

definition FEE_MEDIUM :: real where
  "FEE_MEDIUM = 3458764513820541 / 2 ^ 60"

subsection \<open>Rounding to a double\<close>

text \<open>
  Each arithmetic operation on doubles returns the double nearest to the exact
  result, a tie going to the even significand (IEEE 754 binary64, round to nearest).
  \<open>round_double\<close> scales its argument so that the doubles around it are the integers
  and rounds to an integer: the scale leaves 53 significant bits, and stays at
  \<open>2^-1074\<close> for the numbers below \<open>2^-1022\<close> (gradual underflow). Beyond the largest
  double, \<open>2^1024 - 2^971\<close>, the source gives \<open>Infinity\<close>; \<open>round_double\<close> is applied
  to smaller results only.
\<close>

definition round_half_even :: "real \<Rightarrow> int" where
  "round_half_even q =
     (let n = \<lfloor>q\<rfloor>; r = q - of_int n
      in if r < 1 / 2 then n
         else if 1 / 2 < r then n + 1
         else if even n then n else n + 1)"

definition round_double :: "real \<Rightarrow> real" where
  "round_double x =
     (if x = 0 then 0
      else (let e = max (\<lfloor>log 2 \<bar>x\<bar>\<rfloor> - 52) (- 1074)
            in of_int (round_half_even (x / 2 powi e)) * 2 powi e))"

subsection \<open>Values that are not finite\<close>

text \<open>
  One value of the simulator is not always finite: the current tick is computed by
  \<open>priceToTick\<close>, whose logarithm is \<open>-Infinity\<close> at price \<open>0\<close> and \<open>NaN\<close> below.
  Such a value is a \<open>jsnumber\<close>; stored tick indices are integers and are compared
  with it as JavaScript compares numbers (every comparison with \<open>NaN\<close> is false).
\<close>

datatype jsnumber = Num real | PosInfinity | NegInfinity | NaN

fun js_le :: "real \<Rightarrow> jsnumber \<Rightarrow> bool" where
  "js_le x (Num y) = (x \<le> y)"
| "js_le x PosInfinity = True"
| "js_le x NegInfinity = False"
| "js_le x NaN = False"

fun js_lt :: "real \<Rightarrow> jsnumber \<Rightarrow> bool" where
  "js_lt x (Num y) = (x < y)"
| "js_lt x PosInfinity = True"
| "js_lt x NegInfinity = False"
| "js_lt x NaN = False"

fun js_gt :: "real \<Rightarrow> jsnumber \<Rightarrow> bool" where
  "js_gt x (Num y) = (x > y)"
| "js_gt x PosInfinity = False"
| "js_gt x NegInfinity = True"
| "js_gt x NaN = False"

section \<open>Price conversions (uniswap\_v3\_calculations.js)\<close>

text \<open>
  \<open>priceToTick\<close> is \<open>Math.floor(Math.log(price) / Math.log(1.0001))\<close> and checks
  nothing: \<open>Math.log\<close> gives \<open>-Infinity\<close> at \<open>0\<close> and \<open>NaN\<close> on negative numbers, and
  the division and the floor pass both on. On a positive price the two logarithms
  and the division are rounded, then the floor is taken.
\<close>

definition priceToTick :: "(real \<Rightarrow> real) \<Rightarrow> real \<Rightarrow> jsnumber" where
  "priceToTick fl price =
     (if price > 0 then Num (of_int \<lfloor>fl (fl (ln price) / fl (ln TICK_BASE))\<rfloor>)
      else if price = 0 then NegInfinity
      else NaN)"

text \<open>
  \<open>tickToPrice\<close> is \<open>Math.pow(1.0001, tick)\<close>, for every tick. From the tick
  \<open>7098183\<close> on the exact power lies beyond the largest double and the source
  returns \<open>Infinity\<close>; nothing below gives the value of \<open>tickToPrice\<close> that far.
\<close>

definition tickToPrice :: "(real \<Rightarrow> real) \<Rightarrow> int \<Rightarrow> real" where
  "tickToPrice fl tick = fl (TICK_BASE powi tick)"

text \<open>
  In doubles the two conversions are not inverse to each other. \<open>Math.pow(1.0001, 20)\<close>
  is the double \<open>2256307694300407 / 2^51\<close>, just below the exact power; the quotient
  of the two logarithms computed from it is \<open>19.999999999999403\<close>, and \<open>priceToTick\<close>
  returns \<open>19\<close> for the price of the tick \<open>20\<close>.
\<close>

definition priceToSqrtPriceX96 :: "(real \<Rightarrow> real) \<Rightarrow> real \<Rightarrow> real" where
  "priceToSqrtPriceX96 fl price = fl (fl (sqrt price) * Q96)"

text \<open>\<open>Math.pow((sqrtPriceX96 / Q96), 2)\<close>: the quotient, then its square.\<close>

definition sqrtPriceX96ToPrice :: "(real \<Rightarrow> real) \<Rightarrow> real \<Rightarrow> real" where
  "sqrtPriceX96ToPrice fl sqrtPriceX96 = fl ((fl (sqrtPriceX96 / Q96)) ^ 2)"

text \<open>
  Neither conversion has a \<open>throw\<close>: called with any argument it returns. As a
  result that is either an error or a value, a call is always a value. The two error
  kinds are the ones the specification names; \<open>MIN_TICK\<close> and \<open>MAX_TICK\<close> are declared
  by the source and read nowhere.
\<close>

datatype error = InvalidPrice | TickOutOfRange

definition priceToTick_call :: "(real \<Rightarrow> real) \<Rightarrow> real \<Rightarrow> error + jsnumber" where
  "priceToTick_call fl price = Inr (priceToTick fl price)"

definition tickToPrice_call :: "(real \<Rightarrow> real) \<Rightarrow> int \<Rightarrow> error + real" where
  "tickToPrice_call fl tick = Inr (tickToPrice fl tick)"

section \<open>Liquidity from amounts and amounts from liquidity\<close>

text \<open>
  \<open>fl\<close> is the rounding of one operation. The source writes
  \<open>amount0 * sqrtPriceAX96 * sqrtPriceBX96\<close>, which multiplies from the left.
\<close>

definition calculateLiquidity0 :: "(real \<Rightarrow> real) \<Rightarrow> real \<Rightarrow> real \<Rightarrow> real \<Rightarrow> real" where
  "calculateLiquidity0 fl sqrtPriceAX96 sqrtPriceBX96 amount0 =
     (let numerator = fl (fl (amount0 * sqrtPriceAX96) * sqrtPriceBX96);
          denominator = fl (sqrtPriceBX96 - sqrtPriceAX96)
      in fl (numerator / denominator))"

definition calculateLiquidity1 :: "(real \<Rightarrow> real) \<Rightarrow> real \<Rightarrow> real \<Rightarrow> real \<Rightarrow> real" where
  "calculateLiquidity1 fl sqrtPriceAX96 sqrtPriceBX96 amount1 =
     fl (amount1 / fl (sqrtPriceBX96 - sqrtPriceAX96))"

text \<open>
  \<open>getLiquidityForAmounts\<close> first swaps the two bounds when they come inverted and
  then takes the first branch that matches, in the order of the source.
\<close>

definition getLiquidityForAmounts ::
  "(real \<Rightarrow> real) \<Rightarrow> real \<Rightarrow> real \<Rightarrow> real \<Rightarrow> real \<Rightarrow> real \<Rightarrow> real" where
  "getLiquidityForAmounts fl sqrtPriceX96 sqrtPriceAX96 sqrtPriceBX96 amount0 amount1 =
     (let (a, b) = (if sqrtPriceAX96 > sqrtPriceBX96
                    then (sqrtPriceBX96, sqrtPriceAX96)
                    else (sqrtPriceAX96, sqrtPriceBX96))
      in if sqrtPriceX96 \<le> a then calculateLiquidity0 fl a b amount0
         else if sqrtPriceX96 < b then
           (let liquidity0 = calculateLiquidity0 fl sqrtPriceX96 b amount0;
                liquidity1 = calculateLiquidity1 fl a sqrtPriceX96 amount1
            in min liquidity0 liquidity1)
         else calculateLiquidity1 fl a b amount1)"

definition calculateAmount0 :: "(real \<Rightarrow> real) \<Rightarrow> real \<Rightarrow> real \<Rightarrow> real \<Rightarrow> real" where
  "calculateAmount0 fl sqrtPriceAX96 sqrtPriceBX96 liquidity =
     fl (fl (liquidity * fl (sqrtPriceBX96 - sqrtPriceAX96)) / fl (sqrtPriceAX96 * sqrtPriceBX96))"

definition calculateAmount1 :: "(real \<Rightarrow> real) \<Rightarrow> real \<Rightarrow> real \<Rightarrow> real \<Rightarrow> real" where
  "calculateAmount1 fl sqrtPriceAX96 sqrtPriceBX96 liquidity =
     fl (liquidity * fl (sqrtPriceBX96 - sqrtPriceAX96))"

text \<open>The pair returned is \<open>(amount0, amount1)\<close>; both start at \<open>0\<close>.\<close>

definition getAmountsForLiquidity ::
  "(real \<Rightarrow> real) \<Rightarrow> real \<Rightarrow> real \<Rightarrow> real \<Rightarrow> real \<Rightarrow> real \<times> real" where
  "getAmountsForLiquidity fl sqrtPriceX96 sqrtPriceAX96 sqrtPriceBX96 liquidity =
     (let (a, b) = (if sqrtPriceAX96 > sqrtPriceBX96
                    then (sqrtPriceBX96, sqrtPriceAX96)
                    else (sqrtPriceAX96, sqrtPriceBX96))
      in if sqrtPriceX96 \<le> a then (calculateAmount0 fl a b liquidity, 0)
         else if sqrtPriceX96 < b then
           (calculateAmount0 fl sqrtPriceX96 b liquidity, calculateAmount1 fl a sqrtPriceX96 liquidity)
         else (0, calculateAmount1 fl a b liquidity))"

section \<open>One swap step inside a liquidity region\<close>

record step_result =
  amountOut :: real
  newSqrtPriceX96 :: real

text \<open>
  The fee is taken from the input first. Inputs below \<open>1e-10\<close> go through a
  separate branch that prices the output at the spot price and moves the square-root
  price by \<open>amountIn / (liquidity * 1000)\<close>; all other inputs use the closed formulas.
  The last product of the source is
  \<open>liquidity * (1/newSqrtPriceX96 - 1/sqrtPriceX96) * (sqrtPriceX96 * newSqrtPriceX96)\<close>:
  the two factors in brackets are computed first, then multiplied from the left.
\<close>

definition computeSwapStep ::
  "(real \<Rightarrow> real) \<Rightarrow> real \<Rightarrow> real \<Rightarrow> real \<Rightarrow> real \<Rightarrow> bool \<Rightarrow> step_result" where
  "computeSwapStep fl amountIn sqrtPriceX96 liquidity feeTier zeroForOne =
     (let amountInWithFee = fl (amountIn * fl (1 - feeTier))
      in if amountIn < SMALL_AMOUNT then
           (if zeroForOne then
              \<lparr>amountOut = fl (amountInWithFee * sqrtPriceX96ToPrice fl sqrtPriceX96),
               newSqrtPriceX96 = fl (sqrtPriceX96 * fl (1 - fl (amountIn / fl (liquidity * 1000))))\<rparr>
            else
              \<lparr>amountOut = fl (amountInWithFee / sqrtPriceX96ToPrice fl sqrtPriceX96),
               newSqrtPriceX96 = fl (sqrtPriceX96 * fl (1 + fl (amountIn / fl (liquidity * 1000))))\<rparr>)
         else if zeroForOne then
           (let priceDelta = fl (fl (amountInWithFee * sqrtPriceX96) / liquidity);
                new = fl (sqrtPriceX96 - priceDelta)
            in \<lparr>amountOut = fl (liquidity * fl (sqrtPriceX96 - new)), newSqrtPriceX96 = new\<rparr>)
         else
           (let priceDelta = fl (amountInWithFee / liquidity);
                new = fl (sqrtPriceX96 + priceDelta)
            in \<lparr>amountOut = fl (fl (liquidity * fl (fl (1 / new) - fl (1 / sqrtPriceX96)))
                                  * fl (sqrtPriceX96 * new)),
                newSqrtPriceX96 = new\<rparr>))"

section \<open>The swap simulator (uniswap\_v3\_swap\_simulation.js)\<close>

record tick =
  index :: int
  liquidityNet :: real
  liquidityGross :: real

text \<open>
  One entry of \<open>swapSteps\<close>. Its fields \<open>amountIn\<close> and \<open>amountOut\<close> are named
  \<open>step_amountIn\<close> and \<open>step_amountOut\<close> here; \<open>tickCrossed\<close> is present on a crossing
  step only.
\<close>

record swap_step =
  step_amountIn :: real
  step_amountOut :: real
  priceAfter :: real
  tickAfter :: jsnumber
  liquidityUsed :: real
  crossedTick :: bool
  tickCrossed :: "int option"

record simulator =
  feeTier :: real
  initialPrice :: real
  currentPrice :: real
  currentSqrtPriceX96 :: real
  currentTick :: jsnumber
  liquidityTicks :: "tick list"
  swapSteps :: "swap_step list"

text \<open>
  The object \<open>executeSwap\<close> returns; its \<open>amountIn\<close> and \<open>amountOut\<close> are named
  \<open>result_amountIn\<close> and \<open>result_amountOut\<close>.
\<close>

record swap_result =
  result_amountIn :: real
  result_amountOut :: real
  feesCollected :: real
  finalPrice :: real
  priceImpact :: real
  steps :: "swap_step list"

subsection \<open>The tick index\<close>

text \<open>\<open>addTick\<close> pushes a new entry (it never merges) and sorts by index; the sort is stable.\<close>

definition addTick :: "simulator \<Rightarrow> int \<Rightarrow> real \<Rightarrow> real \<Rightarrow> simulator" where
  "addTick s tickIndex net gross =
     s\<lparr>liquidityTicks :=
         sort_key index (liquidityTicks s @ [\<lparr>index = tickIndex, liquidityNet = net, liquidityGross = gross\<rparr>])\<rparr>"

text \<open>
  A position as the tick index receives it: \<open>addLiquidityInRange\<close> and \<open>addPosition\<close>
  first turn the two prices of a position into \<open>lowerTick\<close> and \<open>upperTick\<close> and then
  make the same two calls, \<open>addTick(lowerTick, liquidity, liquidity)\<close> and
  \<open>addTick(upperTick, -liquidity, liquidity)\<close>. \<open>addLiquidityAtTicks\<close> is these two
  calls, and \<open>initializePoolAtTicks\<close> their repetition over a list of positions, as
  in the \<open>forEach\<close> of \<open>initializePoolFromPositions\<close>. The two ticks are the input
  here: how a price becomes a tick is \<open>priceToTick\<close>, above.
\<close>

record position =
  lowerTick :: int
  upperTick :: int
  liquidity :: real

definition addLiquidityAtTicks :: "simulator \<Rightarrow> position \<Rightarrow> simulator" where
  "addLiquidityAtTicks s p =
     addTick (addTick s (lowerTick p) (liquidity p) (liquidity p))
       (upperTick p) (- liquidity p) (liquidity p)"

definition initializePoolAtTicks :: "simulator \<Rightarrow> position list \<Rightarrow> simulator" where
  "initializePoolAtTicks s ps = foldl addLiquidityAtTicks s ps"

text \<open>
  \<open>getActiveLiquidity\<close> walks the stored ticks in order, adds \<open>liquidityNet\<close> while
  the index is at most the current tick, and leaves the loop at the first index above
  it. Each addition is rounded.
\<close>

fun activeLoop :: "(real \<Rightarrow> real) \<Rightarrow> jsnumber \<Rightarrow> tick list \<Rightarrow> real \<Rightarrow> real" where
  "activeLoop fl cur [] activeLiquidity = activeLiquidity"
| "activeLoop fl cur (t # ts) activeLiquidity =
     (if js_le (of_int (index t)) cur then activeLoop fl cur ts (fl (activeLiquidity + liquidityNet t))
      else activeLiquidity)"

definition getActiveLiquidity :: "(real \<Rightarrow> real) \<Rightarrow> simulator \<Rightarrow> real" where
  "getActiveLiquidity fl s = activeLoop fl (currentTick s) (liquidityTicks s) 0"

text \<open>
  \<open>findNextTick\<close>: downwards, the last stored tick strictly below the current one;
  upwards, the first stored tick strictly above it; \<open>null\<close> when there is none.
\<close>

definition findNextTick :: "simulator \<Rightarrow> bool \<Rightarrow> tick option" where
  "findNextTick s zeroForOne =
     (if zeroForOne
      then find (\<lambda>t. js_lt (of_int (index t)) (currentTick s)) (rev (liquidityTicks s))
      else find (\<lambda>t. js_gt (of_int (index t)) (currentTick s)) (liquidityTicks s))"

subsection \<open>The swap loop\<close>

definition SCALE_FACTOR :: real where
  "SCALE_FACTOR = 10 ^ 18"

text \<open>The simulator together with the three local variables of \<open>executeSwap\<close>.\<close>

record swap_loop =
  sim :: simulator
  remainingAmount :: real
  totalAmountOut :: real
  feeAmount :: real

text \<open>
  Spending all the remaining input inside the current region. The source has this
  block twice, word for word: when there is no next tick and when the next tick is out
  of reach.
\<close>

definition useRemaining :: "(real \<Rightarrow> real) \<Rightarrow> bool \<Rightarrow> real \<Rightarrow> swap_loop \<Rightarrow> swap_loop" where
  "useRemaining fl zeroForOne activeLiquidity l =
     (let s = sim l;
          scaledAmount = fl (remainingAmount l * SCALE_FACTOR);
          step = computeSwapStep fl scaledAmount (currentSqrtPriceX96 s) activeLiquidity (feeTier s) zeroForOne;
          outputAmount = fl (amountOut step / SCALE_FACTOR);
          sqrtP = newSqrtPriceX96 step;
          price = sqrtPriceX96ToPrice fl sqrtP;
          tk = priceToTick fl price
      in \<lparr>sim = s\<lparr>currentPrice := price, currentSqrtPriceX96 := sqrtP, currentTick := tk,
                   swapSteps := swapSteps s @
                     [\<lparr>step_amountIn = remainingAmount l, step_amountOut = outputAmount,
                       priceAfter = price, tickAfter = tk, liquidityUsed = activeLiquidity,
                       crossedTick = False, tickCrossed = None\<rparr>]\<rparr>,
          remainingAmount = 0,
          totalAmountOut = fl (totalAmountOut l + outputAmount),
          feeAmount = fl (feeAmount l + fl (remainingAmount l * feeTier s))\<rparr>)"

text \<open>
  Spending \<open>amountToNextTick\<close> and moving onto the next tick: the step's output is
  kept, its price is not, the pool is set to the tick's own price.
\<close>

definition crossTick ::
  "(real \<Rightarrow> real) \<Rightarrow> bool \<Rightarrow> real \<Rightarrow> tick \<Rightarrow> real \<Rightarrow> swap_loop \<Rightarrow> swap_loop" where
  "crossTick fl zeroForOne activeLiquidity nextTick amountToNextTick l =
     (let s = sim l;
          nextTickPrice = tickToPrice fl (index nextTick);
          nextTickSqrtPriceX96 = priceToSqrtPriceX96 fl nextTickPrice;
          scaledAmount = fl (amountToNextTick * SCALE_FACTOR);
          step = computeSwapStep fl scaledAmount (currentSqrtPriceX96 s) activeLiquidity (feeTier s) zeroForOne;
          outputAmount = fl (amountOut step / SCALE_FACTOR)
      in \<lparr>sim = s\<lparr>currentPrice := nextTickPrice, currentSqrtPriceX96 := nextTickSqrtPriceX96,
                   currentTick := Num (of_int (index nextTick)),
                   swapSteps := swapSteps s @
                     [\<lparr>step_amountIn = amountToNextTick, step_amountOut = outputAmount,
                       priceAfter = nextTickPrice, tickAfter = Num (of_int (index nextTick)),
                       liquidityUsed = activeLiquidity,
                       crossedTick = True, tickCrossed = Some (index nextTick)\<rparr>]\<rparr>,
          remainingAmount = fl (remainingAmount l - amountToNextTick),
          totalAmountOut = fl (totalAmountOut l + outputAmount),
          feeAmount = fl (feeAmount l + fl (amountToNextTick * feeTier s))\<rparr>)"

text \<open>The input needed to reach the next tick, with the fee added and scaled down.\<close>

definition amountToNextTick :: "(real \<Rightarrow> real) \<Rightarrow> bool \<Rightarrow> real \<Rightarrow> simulator \<Rightarrow> tick \<Rightarrow> real" where
  "amountToNextTick fl zeroForOne activeLiquidity s nextTick =
     (let nextTickPrice = tickToPrice fl (index nextTick);
          nextTickSqrtPriceX96 = priceToSqrtPriceX96 fl nextTickPrice;
          amount = (if zeroForOne
                    then fl (activeLiquidity *
                           \<bar>fl (fl (1 / currentSqrtPriceX96 s) - fl (1 / nextTickSqrtPriceX96))\<bar>)
                    else fl (activeLiquidity * \<bar>fl (nextTickSqrtPriceX96 - currentSqrtPriceX96 s)\<bar>));
          amount = fl (amount / fl (1 - feeTier s))
      in fl (amount / SCALE_FACTOR))"

text \<open>
  One pass through the body of \<open>while (remainingAmount > 0)\<close>. \<open>Return\<close> is the
  \<open>return\<close> taken when the active liquidity is not positive, \<open>Break\<close> the \<open>break\<close>
  taken when no tick is left, and \<open>Continue\<close> the end of the body, after which the
  loop tests its condition again.
\<close>

datatype iteration = Return | Break swap_loop | Continue swap_loop

definition swapIteration :: "(real \<Rightarrow> real) \<Rightarrow> bool \<Rightarrow> swap_loop \<Rightarrow> iteration" where
  "swapIteration fl zeroForOne l =
     (let activeLiquidity = getActiveLiquidity fl (sim l)
      in if activeLiquidity \<le> 0 then Return
         else case findNextTick (sim l) zeroForOne of
                None \<Rightarrow> Break (useRemaining fl zeroForOne activeLiquidity l)
              | Some nextTick \<Rightarrow>
                  (let amount = amountToNextTick fl zeroForOne activeLiquidity (sim l) nextTick
                   in if amount \<ge> remainingAmount l
                      then Continue (useRemaining fl zeroForOne activeLiquidity l)
                      else Continue (crossTick fl zeroForOne activeLiquidity nextTick amount l)))"

text \<open>The object returned after the loop, and the one returned from inside it.\<close>

definition finalResult :: "(real \<Rightarrow> real) \<Rightarrow> real \<Rightarrow> real \<Rightarrow> swap_loop \<Rightarrow> swap_result" where
  "finalResult fl amountIn initial l =
     \<lparr>result_amountIn = amountIn, result_amountOut = totalAmountOut l,
      feesCollected = feeAmount l, finalPrice = currentPrice (sim l),
      priceImpact = fl (fl (initial - currentPrice (sim l)) / initial),
      steps = swapSteps (sim l)\<rparr>"

definition partialResult :: "(real \<Rightarrow> real) \<Rightarrow> real \<Rightarrow> real \<Rightarrow> swap_loop \<Rightarrow> swap_result" where
  "partialResult fl amountIn initial l =
     \<lparr>result_amountIn = fl (amountIn - remainingAmount l), result_amountOut = totalAmountOut l,
      feesCollected = feeAmount l, finalPrice = currentPrice (sim l),
      priceImpact = fl (fl (initial - currentPrice (sim l)) / initial),
      steps = swapSteps (sim l)\<rparr>"

text \<open>
  The number of stored ticks that lie strictly ahead of the current tick in the
  direction of the swap. A crossing moves the current tick onto one of them, so the
  number drops; this is what ends the loop.
\<close>

definition ticksAhead :: "bool \<Rightarrow> simulator \<Rightarrow> nat" where
  "ticksAhead zeroForOne s =
     length (filter (\<lambda>t. if zeroForOne then js_lt (of_int (index t)) (currentTick s)
                          else js_gt (of_int (index t)) (currentTick s))
               (liquidityTicks s))"

subsection \<open>The loop ends\<close>

text \<open>
  Whenever the body runs to its end without spending everything, it has crossed a
  tick, and fewer stored ticks lie ahead than before.
\<close>

lemma find_ahead_less:
  assumes "find P xs = Some x" and "\<And>t. Q t \<Longrightarrow> P t" and "\<not> Q x"
  shows "length (filter Q xs) < length (filter P xs)"
proof -
  have mem: "x \<in> set (filter P xs)"
    using assms(1) by (auto simp: find_Some_iff in_set_conv_nth)
  have "filter Q xs = filter Q (filter P xs)"
    using assms(2) by (auto intro: filter_cong)
  moreover have "length (filter Q (filter P xs)) < length (filter P xs)"
    using mem assms(3) by (rule length_filter_less)
  ultimately show ?thesis by simp
qed

lemma crossTick_ticksAhead:
  assumes "findNextTick (sim l) z = Some nextTick"
  shows "ticksAhead z (sim (crossTick fl z a nextTick amt l)) < ticksAhead z (sim l)"
proof (cases z)
  case True
  let ?P = "\<lambda>t. js_lt (of_int (index t)) (currentTick (sim l))"
  let ?Q = "\<lambda>t. js_lt (of_int (index t)) (Num (of_int (index nextTick)))"
  from assms True have f: "find ?P (rev (liquidityTicks (sim l))) = Some nextTick"
    by (simp add: findNextTick_def)
  then have pn: "?P nextTick" by (auto simp: find_Some_iff)
  have imp: "\<And>t. ?Q t \<Longrightarrow> ?P t"
    using pn by (cases "currentTick (sim l)") auto
  have "length (filter ?Q (rev (liquidityTicks (sim l)))) < length (filter ?P (rev (liquidityTicks (sim l))))"
    by (rule find_ahead_less [where P = ?P and Q = ?Q, OF f imp]) simp_all
  then show ?thesis
    using True by (simp add: ticksAhead_def crossTick_def Let_def flip: rev_filter)
next
  case False
  let ?P = "\<lambda>t. js_gt (of_int (index t)) (currentTick (sim l))"
  let ?Q = "\<lambda>t. js_gt (of_int (index t)) (Num (of_int (index nextTick)))"
  from assms False have f: "find ?P (liquidityTicks (sim l)) = Some nextTick"
    by (simp add: findNextTick_def)
  then have pn: "?P nextTick" by (auto simp: find_Some_iff)
  have imp: "\<And>t. ?Q t \<Longrightarrow> ?P t"
    using pn by (cases "currentTick (sim l)") auto
  have "length (filter ?Q (liquidityTicks (sim l))) < length (filter ?P (liquidityTicks (sim l)))"
    by (rule find_ahead_less [where P = ?P and Q = ?Q, OF f imp]) simp_all
  then show ?thesis
    using False by (simp add: ticksAhead_def crossTick_def Let_def)
qed

lemma useRemaining_remaining: "remainingAmount (useRemaining fl z a l) = 0"
  by (simp add: useRemaining_def Let_def)

lemma swapIteration_Continue:
  assumes "swapIteration fl z l = Continue l'"
  shows "remainingAmount l' = 0 \<or> ticksAhead z (sim l') < ticksAhead z (sim l)"
  using assms
  by (auto simp: swapIteration_def Let_def useRemaining_remaining crossTick_ticksAhead
      split: if_splits option.splits)

text \<open>
  The loop of \<open>executeSwap\<close>, with the requested amount and the price at entry as
  constants. It returns the result object and the simulator as the call leaves it.
\<close>

function swapLoop ::
  "(real \<Rightarrow> real) \<Rightarrow> real \<Rightarrow> real \<Rightarrow> bool \<Rightarrow> swap_loop \<Rightarrow> swap_result \<times> simulator" where
  "swapLoop fl amountIn initial zeroForOne l =
     (if remainingAmount l > 0 then
        (case swapIteration fl zeroForOne l of
           Return \<Rightarrow> (partialResult fl amountIn initial l, sim l)
         | Break l' \<Rightarrow> (finalResult fl amountIn initial l', sim l')
         | Continue l' \<Rightarrow> swapLoop fl amountIn initial zeroForOne l')
      else (finalResult fl amountIn initial l, sim l))"
  by pat_completeness auto
termination
proof (relation "measure (\<lambda>(fl, amountIn, initial, z, l).
          if remainingAmount l > 0 then Suc (ticksAhead z (sim l)) else 0)", goal_cases)
  case 1
  show ?case by simp
next
  case (2 fl amountIn initial zeroForOne l l')
  then show ?case
    using swapIteration_Continue [of fl zeroForOne l l'] by auto
qed

declare swapLoop.simps [simp del]

text \<open>\<open>executeSwap\<close> empties \<open>swapSteps\<close>, sets the three locals and runs the loop.\<close>

definition executeSwap ::
  "(real \<Rightarrow> real) \<Rightarrow> simulator \<Rightarrow> real \<Rightarrow> bool \<Rightarrow> swap_result \<times> simulator" where
  "executeSwap fl s amountIn zeroForOne =
     swapLoop fl amountIn (currentPrice s) zeroForOne
       \<lparr>sim = s\<lparr>swapSteps := []\<rparr>, remainingAmount = amountIn, totalAmountOut = 0, feeAmount = 0\<rparr>"

section \<open>What the rounding does\<close>

lemma round_half_even_near: "\<bar>of_int (round_half_even q) - q\<bar> \<le> 1 / 2"
proof -
  have "of_int \<lfloor>q\<rfloor> \<le> q" "q < of_int \<lfloor>q\<rfloor> + 1" by linarith+
  then show ?thesis
    by (auto simp: round_half_even_def Let_def abs_le_iff)
qed

lemma round_half_even_int: "round_half_even (of_int n) = n"
  by (simp add: round_half_even_def)

lemma two_powr_int: "2 powr real_of_int k = (2::real) powi k"
  by (rule powr_real_of_int') simp_all

lemma double_exponent:
  assumes "2 ^ 52 \<le> \<bar>x / 2 powi e\<bar>" and "\<bar>x / 2 powi e\<bar> < 2 ^ 53"
  shows "\<lfloor>log 2 \<bar>x\<bar>\<rfloor> - 52 = e"
proof -
  have p: "(0::real) < 2 powi e" by simp
  have abs: "\<bar>x / 2 powi e\<bar> = \<bar>x\<bar> / 2 powi e" using p by (simp add: abs_divide)
  have lo: "2 powi (52 + e) \<le> \<bar>x\<bar>"
    using assms(1) p unfolding abs by (simp add: power_int_add field_simps)
  have hi: "\<bar>x\<bar> < 2 powi (53 + e)"
    using assms(2) p unfolding abs by (simp add: power_int_add field_simps)
  have xpos: "0 < \<bar>x\<bar>"
    using lo by (smt (verit) zero_less_power_int)
  have "2 powr real_of_int (52 + e) \<le> \<bar>x\<bar>"
    using lo by (simp only: two_powr_int)
  then have "real_of_int (52 + e) \<le> log 2 \<bar>x\<bar>"
    using xpos by (subst le_log_iff) simp_all
  moreover have "log 2 \<bar>x\<bar> < real_of_int (52 + e) + 1"
  proof -
    have "\<bar>x\<bar> < 2 powr real_of_int (53 + e)"
      using hi by (simp only: two_powr_int)
    then have "log 2 \<bar>x\<bar> < real_of_int (53 + e)"
      using xpos by (subst log_less_iff) simp_all
    then show ?thesis by simp
  qed
  ultimately have "\<lfloor>log 2 \<bar>x\<bar>\<rfloor> = 52 + e"
    by (rule floor_unique)
  then show ?thesis by simp
qed

lemma round_double_eval:
  assumes "2 ^ 52 \<le> \<bar>x / 2 powi e\<bar>" and "\<bar>x / 2 powi e\<bar> < 2 ^ 53" and "- 1074 \<le> e"
  shows "round_double x = of_int (round_half_even (x / 2 powi e)) * 2 powi e"
proof -
  have "x \<noteq> 0" using assms(1) by auto
  moreover have "max (\<lfloor>log 2 \<bar>x\<bar>\<rfloor> - 52) (- 1074) = e"
    using double_exponent [OF assms(1,2)] assms(3) by simp
  ultimately show ?thesis
    by (simp add: round_double_def Let_def)
qed

lemma round_double_zero: "round_double 0 = 0"
  by (simp add: round_double_def)

lemma double_scaled:
  assumes "x \<noteq> 0"
  shows "2 ^ 52 \<le> \<bar>x / 2 powi (\<lfloor>log 2 \<bar>x\<bar>\<rfloor> - 52)\<bar>"
proof -
  let ?k = "\<lfloor>log 2 \<bar>x\<bar>\<rfloor>"
  have xpos: "0 < \<bar>x\<bar>" using assms by simp
  have "real_of_int ?k \<le> log 2 \<bar>x\<bar>" by simp
  then have "2 powr real_of_int ?k \<le> \<bar>x\<bar>"
    using xpos by (subst (asm) le_log_iff) simp_all
  then have "2 powi ?k \<le> \<bar>x\<bar>"
    by (simp only: two_powr_int)
  then have "2 ^ 52 * 2 powi (?k - 52) \<le> \<bar>x\<bar>"
    by (simp add: power_int_diff)
  then show ?thesis
    by (simp add: abs_divide field_simps)
qed

lemma normal_exponent:
  assumes "2 powi (- 1022) \<le> \<bar>x\<bar>"
  shows "max (\<lfloor>log 2 \<bar>x\<bar>\<rfloor> - 52) (- 1074) = \<lfloor>log 2 \<bar>x\<bar>\<rfloor> - 52"
proof -
  have xpos: "0 < \<bar>x\<bar>"
    using assms by (smt (verit) zero_less_power_int)
  have "2 powr real_of_int (- 1022) \<le> \<bar>x\<bar>"
    using assms by (simp only: two_powr_int)
  then have "real_of_int (- 1022) \<le> log 2 \<bar>x\<bar>"
    using xpos by (subst le_log_iff) simp_all
  then have "(- 1022 :: int) \<le> \<lfloor>log 2 \<bar>x\<bar>\<rfloor>"
    by (subst le_floor_iff) simp
  then show ?thesis by linarith
qed

lemma round_double_error:
  assumes "2 powi (- 1022) \<le> \<bar>x\<bar>"
  shows "\<bar>round_double x - x\<bar> \<le> (1 / 2 ^ 53) * \<bar>x\<bar>"
proof -
  have nz: "x \<noteq> 0"
    using assms by (smt (verit) zero_less_power_int)
  define e where "e = \<lfloor>log 2 \<bar>x\<bar>\<rfloor> - 52"
  define q where "q = x / 2 powi e"
  have p: "(0::real) < 2 powi e" by simp
  have x: "x = q * 2 powi e" using p by (simp add: q_def)
  have big: "2 ^ 52 \<le> \<bar>q\<bar>"
    using double_scaled [OF nz] by (simp add: q_def e_def)
  have rd: "round_double x = of_int (round_half_even q) * 2 powi e"
    using nz normal_exponent [OF assms] by (simp add: round_double_def Let_def e_def q_def)
  have "round_double x - x = of_int (round_half_even q) * 2 powi e - q * 2 powi e"
    using rd x by simp
  also have "\<dots> = (of_int (round_half_even q) - q) * 2 powi e"
    by (simp add: algebra_simps)
  finally have "round_double x - x = (of_int (round_half_even q) - q) * 2 powi e" .
  then have "\<bar>round_double x - x\<bar> = \<bar>of_int (round_half_even q) - q\<bar> * 2 powi e"
    using p by (simp add: abs_mult)
  also have "\<dots> \<le> (1 / 2) * 2 powi e"
    using round_half_even_near [of q] p by (intro mult_right_mono) simp_all
  also have "\<dots> \<le> (1 / 2 ^ 53) * (\<bar>q\<bar> * 2 powi e)"
  proof -
    have "1 / 2 \<le> (1 / 2 ^ 53) * \<bar>q\<bar>" using big by simp
    then have "(1 / 2) * 2 powi e \<le> ((1 / 2 ^ 53) * \<bar>q\<bar>) * 2 powi e"
      using p by (intro mult_right_mono) simp_all
    then show ?thesis by (simp add: mult.assoc)
  qed
  also have "\<bar>q\<bar> * 2 powi e = \<bar>x\<bar>"
    using p by (simp add: x abs_mult)
  finally show ?thesis .
qed

text \<open>Every integer below \<open>2^53\<close> in absolute value is a double.\<close>

lemma round_double_int:
  assumes "\<bar>n\<bar> < 2 ^ 53"
  shows "round_double (of_int n) = of_int n"
proof (cases "n = 0")
  case True
  then show ?thesis by (simp add: round_double_def)
next
  case False
  let ?x = "real_of_int n"
  let ?k = "\<lfloor>log 2 \<bar>?x\<bar>\<rfloor>"
  have one: "1 \<le> \<bar>?x\<bar>"
  proof -
    have "1 \<le> \<bar>n\<bar>" using False by linarith
    then have "(1::real) \<le> of_int \<bar>n\<bar>" by (simp only: of_int_1_le_iff)
    then show ?thesis by simp
  qed
  have top: "\<bar>?x\<bar> < 2 ^ 53"
    using assms by (metis of_int_abs of_int_less_numeral_power_cancel_iff)
  have "0 \<le> log 2 \<bar>?x\<bar>" using one by simp
  then have k0: "0 \<le> ?k" by simp
  have "log 2 \<bar>?x\<bar> < 53"
  proof -
    have "\<bar>?x\<bar> < 2 powr 53" using top by simp
    then show ?thesis using one by (subst log_less_iff) simp_all
  qed
  then have k53: "?k < 53" by (simp add: floor_less_iff)
  define j where "j = nat (52 - ?k)"
  have e: "max (?k - 52) (- 1074) = - int j"
    using k0 k53 by (simp add: j_def)
  have pw: "(2::real) powi (- int j) = 1 / 2 ^ j"
    by (simp add: power_int_minus field_simps)
  have q: "?x / 2 powi (- int j) = of_int (n * 2 ^ j)"
    unfolding pw by simp
  have "round_double ?x = of_int (round_half_even (?x / 2 powi (- int j))) * 2 powi (- int j)"
    using False by (simp add: round_double_def Let_def e del: of_int_abs)
  also have "\<dots> = of_int (n * 2 ^ j) * 2 powi (- int j)"
    unfolding q by (simp only: round_half_even_int)
  also have "\<dots> = ?x"
    unfolding pw by simp
  finally show ?thesis .
qed

section \<open>Properties of the swap step\<close>

text \<open>
  C1 (as amended). For every input with \<open>amountIn \<ge> 1e-10\<close>, \<open>liquidity > 0\<close> and
  \<open>sqrtPrice > 0\<close>, the step deducts the fee, \<open>amountInNet = amountIn * (1 - feeTier)\<close>,
  and returns: selling the first asset, \<open>sqrtPriceAfter = sqrtPrice - (amountInNet *
  sqrtPrice) / liquidity\<close> and \<open>amountOut = liquidity * (sqrtPrice - sqrtPriceAfter)\<close>;
  in the other direction, \<open>sqrtPriceAfter = sqrtPrice + amountInNet / liquidity\<close> and
  \<open>amountOut = (liquidity * (1/sqrtPriceAfter - 1/sqrtPrice)) * (sqrtPrice *
  sqrtPriceAfter)\<close>. Every operation of these formulas is one operation on doubles,
  rounded by \<open>fl\<close>, in this grouping.
\<close>

theorem computeSwapStep_formulas:
  fixes fl :: "real \<Rightarrow> real" and amountIn sqrtPrice liquidity feeTier :: real
  assumes "SMALL_AMOUNT \<le> amountIn" and "0 < liquidity" and "0 < sqrtPrice"
  shows "computeSwapStep fl amountIn sqrtPrice liquidity feeTier zeroForOne =
     (let amountInNet = fl (amountIn * fl (1 - feeTier));
          sqrtPriceAfter = (if zeroForOne
                            then fl (sqrtPrice - fl (fl (amountInNet * sqrtPrice) / liquidity))
                            else fl (sqrtPrice + fl (amountInNet / liquidity)))
      in \<lparr>amountOut = (if zeroForOne then fl (liquidity * fl (sqrtPrice - sqrtPriceAfter))
                       else fl (fl (liquidity * fl (fl (1 / sqrtPriceAfter) - fl (1 / sqrtPrice)))
                                * fl (sqrtPrice * sqrtPriceAfter))),
          newSqrtPriceX96 = sqrtPriceAfter\<rparr>)"
  using assms(1) by (simp add: computeSwapStep_def Let_def)

text \<open>
  With \<open>amountIn = 1\<close>, \<open>sqrtPrice = 2 * Q96\<close>, \<open>liquidity = 4\<close> and the fee \<open>0.003\<close>,
  in doubles: selling the first asset moves the square-root price to
  \<open>6762154840496800 * 2^44\<close> for an output of \<open>8980177656976768 * 2^44\<close>; in the other
  direction the price change \<open>0.24925\<close> is lost when it is added to \<open>2^97\<close>, so the
  price stays and the output is \<open>0\<close>.
\<close>

theorem computeSwapStep_formulas_witness:
  "computeSwapStep round_double 1 (2 * Q96) 4 FEE_MEDIUM True
     = \<lparr>amountOut = 8980177656976768 * 2 ^ 44, newSqrtPriceX96 = 6762154840496800 * 2 ^ 44\<rparr>
   \<and> computeSwapStep round_double 1 (2 * Q96) 4 FEE_MEDIUM False
     = \<lparr>amountOut = 0, newSqrtPriceX96 = 2 * Q96\<rparr>"
proof -
  let ?A = "8980177656976769 / 2 ^ 53 :: real"
  have pos: "0 < 2 * Q96" by (simp add: Q96_def)
  have big: "SMALL_AMOUNT \<le> (1::real)" by (simp add: SMALL_AMOUNT_def)
  have liq: "(0::real) < 4" by simp
  have f1: "round_double (1 - FEE_MEDIUM) = ?A"
    by (subst round_double_eval [where e = "- 53"]) (simp_all add: round_half_even_def FEE_MEDIUM_def)
  have f2: "round_double (1 * ?A) = ?A"
    by (subst round_double_eval [where e = "- 53"]) (simp_all add: round_half_even_def)
  have d1: "round_double (?A * (2 * Q96)) = 8980177656976769 * 2 ^ 44"
    by (subst round_double_eval [where e = 44]) (simp_all add: round_half_even_def Q96_def)
  have d2: "round_double (8980177656976769 * 2 ^ 44 / 4) = 8980177656976769 * 2 ^ 42"
    by (subst round_double_eval [where e = 42]) (simp_all add: round_half_even_def)
  have d3: "round_double (2 * Q96 - 8980177656976769 * 2 ^ 42) = 6762154840496800 * 2 ^ 44"
    by (subst round_double_eval [where e = 44]) (simp_all add: round_half_even_def Q96_def)
  have d4: "round_double (2 * Q96 - 6762154840496800 * 2 ^ 44) = 8980177656976768 * 2 ^ 42"
    by (subst round_double_eval [where e = 42]) (simp_all add: round_half_even_def Q96_def)
  have d5: "round_double (4 * (8980177656976768 * 2 ^ 42)) = 8980177656976768 * 2 ^ 44"
    by (subst round_double_eval [where e = 44]) (simp_all add: round_half_even_def)
  have u1: "round_double (?A / 4) = 8980177656976769 / 2 ^ 55"
    by (subst round_double_eval [where e = "- 55"]) (simp_all add: round_half_even_def)
  have u2: "round_double (2 * Q96 + 8980177656976769 / 2 ^ 55) = 2 * Q96"
    by (subst round_double_eval [where e = 45]) (simp_all add: round_half_even_def Q96_def)
  have u3: "round_double (1 / (2 * Q96)) = 1 / (2 * Q96)"
    by (subst round_double_eval [where e = "- 149"]) (simp_all add: round_half_even_def Q96_def)
  have u4: "round_double (1 / (2 * Q96) - 1 / (2 * Q96)) = 0"
    by (simp add: round_double_def)
  have u5: "round_double (4 * 0) = 0"
    by (simp add: round_double_def)
  have u6: "round_double (0 * round_double (2 * Q96 * (2 * Q96))) = 0"
    by (simp add: round_double_def)
  have down: "computeSwapStep round_double 1 (2 * Q96) 4 FEE_MEDIUM True
     = \<lparr>amountOut = 8980177656976768 * 2 ^ 44, newSqrtPriceX96 = 6762154840496800 * 2 ^ 44\<rparr>"
    by (simp only: computeSwapStep_formulas [OF big liq pos] Let_def if_True f1 f2 d1 d2 d3 d4 d5)
  have up: "computeSwapStep round_double 1 (2 * Q96) 4 FEE_MEDIUM False
     = \<lparr>amountOut = 0, newSqrtPriceX96 = 2 * Q96\<rparr>"
    by (simp only: computeSwapStep_formulas [OF big liq pos] Let_def if_False f1 f2 u1 u2 u3 u4 u5 u6)
  from down up show ?thesis by (rule conjI)
qed

text \<open>
  The claim as first stated also covers inputs in \<open>(0, 1e-10)\<close>. There the source
  takes its small-amount branch. With \<open>amountIn = 2^-40\<close>, \<open>sqrtPrice = Q96\<close>,
  liquidity \<open>1\<close> and the fee \<open>0.003\<close>, in doubles, the step returns the square-root
  price \<open>9007199254740984 * 2^43\<close>, where the formula of the claim gives
  \<open>9007199254732825 * 2^43\<close>, a move about a thousand times larger; and it returns the
  output \<open>8980177656976769 / 2^93\<close>, the net input at the spot price, where
  \<open>liquidity * (sqrtPrice - sqrtPriceAfter)\<close> is \<open>2^46\<close>.

  And the claim writes the last product without brackets,
  \<open>liquidity * (1/sqrtPriceAfter - 1/sqrtPrice) * sqrtPrice * sqrtPriceAfter\<close>, which
  multiplies from the left. In doubles that is another number than the product of
  the source: with \<open>amountIn = 1\<close>, \<open>sqrtPrice = 3\<close>, liquidity \<open>5\<close> and the fee
  \<open>0.003\<close> the step returns the output \<open>- 4490088828488373 / 2^52\<close>, and the product
  from the left is \<open>- 8980177656976747 / 2^53\<close>.
\<close>

theorem computeSwapStep_formulas_counterexample:
  "0 < (1 / 2 ^ 40 :: real) \<and> (0::real) < 1 \<and> 0 < Q96
   \<and> newSqrtPriceX96 (computeSwapStep round_double (1 / 2 ^ 40) Q96 1 FEE_MEDIUM True)
       = 9007199254740984 * 2 ^ 43
   \<and> round_double (Q96 - round_double (round_double
         (round_double (1 / 2 ^ 40 * round_double (1 - FEE_MEDIUM)) * Q96) / 1))
       = 9007199254732825 * 2 ^ 43
   \<and> amountOut (computeSwapStep round_double (1 / 2 ^ 40) Q96 1 FEE_MEDIUM True)
       = 8980177656976769 / 2 ^ 93
   \<and> round_double (1 * round_double (Q96 - 9007199254740984 * 2 ^ 43)) = 2 ^ 46
   \<and> computeSwapStep round_double 1 3 5 FEE_MEDIUM False
       = \<lparr>amountOut = - (4490088828488373 / 2 ^ 52), newSqrtPriceX96 = 3602204161952291 / 2 ^ 50\<rparr>
   \<and> round_double (round_double (round_double
         (5 * round_double (round_double (1 / (3602204161952291 / 2 ^ 50)) - round_double (1 / 3))) * 3)
           * (3602204161952291 / 2 ^ 50))
       = - (8980177656976747 / 2 ^ 53)"
proof -
  let ?A = "8980177656976769 / 2 ^ 53 :: real"
  let ?N = "8980177656976769 / 2 ^ 93 :: real"
  have small: "(1 / 2 ^ 40 :: real) < SMALL_AMOUNT" by (simp add: SMALL_AMOUNT_def)
  have f1: "round_double (1 - FEE_MEDIUM) = ?A"
    by (subst round_double_eval [where e = "- 53"]) (simp_all add: round_half_even_def FEE_MEDIUM_def)
  have f2: "round_double (1 / 2 ^ 40 * ?A) = ?N"
    by (subst round_double_eval [where e = "- 93"]) (simp_all add: round_half_even_def)
  have s1: "round_double (Q96 / Q96) = 1"
    by (subst round_double_eval [where e = "- 52"]) (simp_all add: round_half_even_def Q96_def)
  have s2: "round_double (1 ^ 2) = 1"
    by (subst round_double_eval [where e = "- 52"]) (simp_all add: round_half_even_def)
  have s3: "round_double (?N * 1) = ?N"
    by (subst round_double_eval [where e = "- 93"]) (simp_all add: round_half_even_def)
  have n1: "round_double (1 * 1000) = 1000"
    by (subst round_double_eval [where e = "- 43"]) (simp_all add: round_half_even_def)
  have n2: "round_double (1 / 2 ^ 40 / 1000) = 1152921504606847 / 2 ^ 100"
    by (subst round_double_eval [where e = "- 102"]) (simp_all add: round_half_even_def)
  have n3: "round_double (1 - 1152921504606847 / 2 ^ 100) = 1125899906842623 / 2 ^ 50"
    by (subst round_double_eval [where e = "- 53"]) (simp_all add: round_half_even_def)
  have n4: "round_double (Q96 * (1125899906842623 / 2 ^ 50)) = 9007199254740984 * 2 ^ 43"
    by (subst round_double_eval [where e = 43]) (simp_all add: round_half_even_def Q96_def)
  have c1: "round_double (?N * Q96) = 8980177656976769 * 2 ^ 3"
    by (subst round_double_eval [where e = 3]) (simp_all add: round_half_even_def Q96_def)
  have c2: "round_double (8980177656976769 * 2 ^ 3 / 1) = 8980177656976769 * 2 ^ 3"
    by (subst round_double_eval [where e = 3]) (simp_all add: round_half_even_def)
  have c3: "round_double (Q96 - 8980177656976769 * 2 ^ 3) = 9007199254732825 * 2 ^ 43"
    by (subst round_double_eval [where e = 43]) (simp_all add: round_half_even_def Q96_def)
  have o1: "round_double (Q96 - 9007199254740984 * 2 ^ 43) = 2 ^ 46"
    by (subst round_double_eval [where e = "- 6"]) (simp_all add: round_half_even_def Q96_def)
  have o2: "round_double (1 * 2 ^ 46) = 2 ^ 46"
    by (subst round_double_eval [where e = "- 6"]) (simp_all add: round_half_even_def)
  have step: "computeSwapStep round_double (1 / 2 ^ 40) Q96 1 FEE_MEDIUM True
      = \<lparr>amountOut = ?N, newSqrtPriceX96 = 9007199254740984 * 2 ^ 43\<rparr>"
    unfolding computeSwapStep_def sqrtPriceX96ToPrice_def
    by (simp only: Let_def small if_True f1 f2 s1 s2 s3 n1 n2 n3 n4)
  have claimed: "round_double (Q96 - round_double (round_double
         (round_double (1 / 2 ^ 40 * round_double (1 - FEE_MEDIUM)) * Q96) / 1))
       = 9007199254732825 * 2 ^ 43"
    by (simp only: f1 f2 c1 c2 c3)
  have out: "round_double (1 * round_double (Q96 - 9007199254740984 * 2 ^ 43)) = 2 ^ 46"
    by (simp only: o1 o2)
  have big: "\<not> (1::real) < SMALL_AMOUNT" by (simp add: SMALL_AMOUNT_def)
  have g2: "round_double (1 * ?A) = ?A"
    by (subst round_double_eval [where e = "- 53"]) (simp_all add: round_half_even_def)
  have g3: "round_double (?A / 5) = 7184142125581415 / 2 ^ 55"
    by (subst round_double_eval [where e = "- 55"]) (simp_all add: round_half_even_def)
  have g4: "round_double (3 + 7184142125581415 / 2 ^ 55) = 3602204161952291 / 2 ^ 50"
    by (subst round_double_eval [where e = "- 51"]) (simp_all add: round_half_even_def)
  have g5: "round_double (1 / (3602204161952291 / 2 ^ 50)) = 2815277631662497 / 2 ^ 53"
    by (subst round_double_eval [where e = "- 54"]) (simp_all add: round_half_even_def)
  have g6: "round_double (1 / 3) = 6004799503160661 / 2 ^ 54"
    by (subst round_double_eval [where e = "- 54"]) (simp_all add: round_half_even_def)
  have g7: "round_double (2815277631662497 / 2 ^ 53 - 6004799503160661 / 2 ^ 54)
      = - (374244239835667 / 2 ^ 54)"
    by (subst round_double_eval [where e = "- 58"]) (simp_all add: round_half_even_def)
  have g8: "round_double (5 * - (374244239835667 / 2 ^ 54)) = - (1871221199178335 / 2 ^ 54)"
    by (subst round_double_eval [where e = "- 56"]) (simp_all add: round_half_even_def)
  have g9: "round_double (3 * (3602204161952291 / 2 ^ 50)) = 1350826560732109 / 2 ^ 47"
    by (subst round_double_eval [where e = "- 49"]) (simp_all add: round_half_even_def)
  have g10: "round_double ((- (1871221199178335 / 2 ^ 54)) * (1350826560732109 / 2 ^ 47))
      = - (4490088828488373 / 2 ^ 52)"
    by (subst round_double_eval [where e = "- 53"]) (simp_all add: round_half_even_def)
  have h1: "round_double ((- (1871221199178335 / 2 ^ 54)) * 3) = - (5613663597535005 / 2 ^ 54)"
    by (subst round_double_eval [where e = "- 54"]) (simp_all add: round_half_even_def)
  have h2: "round_double ((- (5613663597535005 / 2 ^ 54)) * (3602204161952291 / 2 ^ 50))
      = - (8980177656976747 / 2 ^ 53)"
    by (subst round_double_eval [where e = "- 53"]) (simp_all add: round_half_even_def)
  have up: "computeSwapStep round_double 1 3 5 FEE_MEDIUM False
       = \<lparr>amountOut = - (4490088828488373 / 2 ^ 52), newSqrtPriceX96 = 3602204161952291 / 2 ^ 50\<rparr>"
    unfolding computeSwapStep_def
    by (simp only: Let_def big if_False f1 g2 g3 g4 g5 g6 g7 g8 g9 g10)
  have left: "round_double (round_double (round_double
         (5 * round_double (round_double (1 / (3602204161952291 / 2 ^ 50)) - round_double (1 / 3))) * 3)
           * (3602204161952291 / 2 ^ 50))
       = - (8980177656976747 / 2 ^ 53)"
    by (simp only: g5 g6 g7 g8 h1 h2)
  show ?thesis
    unfolding step using claimed out up left by (simp add: Q96_def)
qed

text \<open>
  C10. The step does not clamp the price it returns. Selling the first asset with
  \<open>amountIn = 10\<close>, \<open>sqrtPrice = 2 * Q96\<close>, liquidity \<open>4\<close> and the fee \<open>0.003\<close>, in
  doubles, the net input \<open>9.97\<close> exceeds the liquidity and the square-root price
  returned is \<open>- 6721622443850466 * 2^45\<close>, a negative number.
\<close>

theorem computeSwapStep_negative_price:
  "(0::real) < 4 \<and> (0::real) < 10
   \<and> 4 < round_double (10 * round_double (1 - FEE_MEDIUM))
   \<and> newSqrtPriceX96 (computeSwapStep round_double 10 (2 * Q96) 4 FEE_MEDIUM True)
       = - (6721622443850466 * 2 ^ 45)
   \<and> newSqrtPriceX96 (computeSwapStep round_double 10 (2 * Q96) 4 FEE_MEDIUM True) < 0"
proof -
  let ?A = "8980177656976769 / 2 ^ 53 :: real"
  let ?N = "5612611035610481 / 2 ^ 49 :: real"
  have big: "\<not> (10::real) < SMALL_AMOUNT" by (simp add: SMALL_AMOUNT_def)
  have f1: "round_double (1 - FEE_MEDIUM) = ?A"
    by (subst round_double_eval [where e = "- 53"]) (simp_all add: round_half_even_def FEE_MEDIUM_def)
  have f2: "round_double (10 * ?A) = ?N"
    by (subst round_double_eval [where e = "- 49"]) (simp_all add: round_half_even_def)
  have d1: "round_double (?N * (2 * Q96)) = 5612611035610481 * 2 ^ 48"
    by (subst round_double_eval [where e = 48]) (simp_all add: round_half_even_def Q96_def)
  have d2: "round_double (5612611035610481 * 2 ^ 48 / 4) = 5612611035610481 * 2 ^ 46"
    by (subst round_double_eval [where e = 46]) (simp_all add: round_half_even_def)
  have d3: "round_double (2 * Q96 - 5612611035610481 * 2 ^ 46) = - (6721622443850466 * 2 ^ 45)"
    by (subst round_double_eval [where e = 45]) (simp_all add: round_half_even_def Q96_def)
  have new: "newSqrtPriceX96 (computeSwapStep round_double 10 (2 * Q96) 4 FEE_MEDIUM True)
      = - (6721622443850466 * 2 ^ 45)"
    unfolding computeSwapStep_def
    by (simp only: Let_def big if_True if_False f1 f2 d1 d2 d3 step_result.select_convs)
  have net: "4 < round_double (10 * round_double (1 - FEE_MEDIUM))"
    by (simp only: f1 f2) simp
  show ?thesis
    unfolding new using net by simp
qed

section \<open>Properties of the liquidity computation\<close>

text \<open>
  C2. \<open>getLiquidityForAmounts\<close> orders the two bounds itself (inverted bounds are
  swapped, nothing is rejected), and with \<open>lower = min a b\<close> and \<open>upper = max a b\<close> it
  follows three regimes: at or below the lower bound the liquidity is
  \<open>amount0 * lower * upper / (upper - lower)\<close>; strictly inside the range it is the
  smaller of \<open>L0\<close>, from \<open>amount0\<close> over \<open>[sqrtPrice, upper]\<close>, and \<open>L1\<close>, from
  \<open>amount1\<close> over \<open>[lower, sqrtPrice]\<close>; at or above the upper bound it is
  \<open>amount1 / (upper - lower)\<close>. Each operation of these formulas is rounded by \<open>fl\<close>;
  with the identity for \<open>fl\<close> they are the formulas as written. The branches are
  tried in this order, so the one point that is both at the lower and at the upper
  bound (\<open>lower = upper = sqrtPrice\<close>) belongs to the first regime.
\<close>

theorem getLiquidityForAmounts_regimes:
  fixes fl :: "real \<Rightarrow> real" and sqrtPrice a b amount0 amount1 :: real
  shows
    "(sqrtPrice \<le> min a b \<longrightarrow>
        getLiquidityForAmounts fl sqrtPrice a b amount0 amount1 =
          fl (fl (fl (amount0 * min a b) * max a b) / fl (max a b - min a b)))
     \<and> (min a b < sqrtPrice \<and> sqrtPrice < max a b \<longrightarrow>
        getLiquidityForAmounts fl sqrtPrice a b amount0 amount1 =
          min (fl (fl (fl (amount0 * sqrtPrice) * max a b) / fl (max a b - sqrtPrice)))
              (fl (amount1 / fl (sqrtPrice - min a b))))
     \<and> (max a b \<le> sqrtPrice \<and> min a b < sqrtPrice \<longrightarrow>
        getLiquidityForAmounts fl sqrtPrice a b amount0 amount1 =
          fl (amount1 / fl (max a b - min a b)))"
  by (cases "b < a")
     (simp_all add: getLiquidityForAmounts_def calculateLiquidity0_def
        calculateLiquidity1_def Let_def min_def max_def)

theorem getLiquidityForAmounts_regimes_witness:
  "getLiquidityForAmounts (\<lambda>x. x) 1 3 2 5 7 = 5 * 2 * 3 / (3 - 2)
   \<and> getLiquidityForAmounts (\<lambda>x. x) (5 / 2) 3 2 5 7 = min (5 * (5 / 2) * 3 / (3 - 5 / 2)) (7 / (5 / 2 - 2))
   \<and> getLiquidityForAmounts (\<lambda>x. x) 4 3 2 5 7 = 7 / (3 - 2)"
proof -
  have r1: "getLiquidityForAmounts (\<lambda>x. x) 1 3 2 5 7 = 5 * 2 * 3 / (3 - 2)"
    using getLiquidityForAmounts_regimes [of 1 3 2 "\<lambda>x. x" 5 7] by simp
  have r2: "getLiquidityForAmounts (\<lambda>x. x) (5 / 2) 3 2 5 7 = min (5 * (5 / 2) * 3 / (3 - 5 / 2)) (7 / (5 / 2 - 2))"
    using getLiquidityForAmounts_regimes [of "5 / 2" 3 2 "\<lambda>x. x" 5 7] by simp
  have r3: "getLiquidityForAmounts (\<lambda>x. x) 4 3 2 5 7 = 7 / (3 - 2)"
    using getLiquidityForAmounts_regimes [of 4 3 2 "\<lambda>x. x" 5 7] by simp
  from r1 r2 r3 show ?thesis by simp
qed

subsection \<open>The round trip\<close>

text \<open>
  Consequences of a bound \<open>u\<close> on the relative error of one rounding, at the exact
  result \<open>x\<close> of one operation.
\<close>

lemma fl_upper:
  fixes fl :: "real \<Rightarrow> real"
  assumes "\<bar>fl x - x\<bar> \<le> u * \<bar>x\<bar>" and "0 \<le> x"
  shows "fl x \<le> x * (1 + u)"
  using assms by (simp add: abs_le_iff algebra_simps)

lemma fl_lower:
  fixes fl :: "real \<Rightarrow> real"
  assumes "\<bar>fl x - x\<bar> \<le> u * \<bar>x\<bar>" and "0 \<le> x"
  shows "x * (1 - u) \<le> fl x"
  using assms by (simp add: abs_le_iff algebra_simps)

lemma fl_nonneg:
  fixes fl :: "real \<Rightarrow> real"
  assumes "\<bar>fl x - x\<bar> \<le> u * \<bar>x\<bar>" and "u < 1" and "0 \<le> x"
  shows "0 \<le> fl x"
proof -
  have "0 \<le> x * (1 - u)" using assms(2,3) by simp
  also have "\<dots> \<le> fl x" using assms(1,3) by (rule fl_lower)
  finally show ?thesis .
qed

lemma fl_pos:
  fixes fl :: "real \<Rightarrow> real"
  assumes "\<bar>fl x - x\<bar> \<le> u * \<bar>x\<bar>" and "u < 1" and "0 < x"
  shows "0 < fl x"
proof -
  have "0 < x * (1 - u)" using assms(2,3) by simp
  also have "\<dots> \<le> fl x" using assms(1) by (rule fl_lower) (use assms(3) in simp)
  finally show ?thesis .
qed

lemma roundtrip_amount1:
  fixes fl :: "real \<Rightarrow> real"
  assumes u: "0 \<le> u" "u < 1"
    and d: "0 < d" and a1: "0 \<le> a1" and L: "0 \<le> L" "L \<le> fl (a1 / fl d)"
    and e_d: "\<bar>fl d - d\<bar> \<le> u * \<bar>d\<bar>"
    and e_q: "\<bar>fl (a1 / fl d) - a1 / fl d\<bar> \<le> u * \<bar>a1 / fl d\<bar>"
    and e_m: "\<bar>fl (L * fl d) - L * fl d\<bar> \<le> u * \<bar>L * fl d\<bar>"
  shows "fl (L * fl d) \<le> a1 * (1 + u) ^ 2"
proof -
  let ?d = "fl d"
  have dpos: "0 < ?d" using e_d u(2) d by (rule fl_pos)
  have "fl (a1 / ?d) \<le> a1 / ?d * (1 + u)"
    using e_q by (rule fl_upper) (use a1 dpos in simp)
  then have L1: "L \<le> a1 / ?d * (1 + u)" using L(2) by simp
  have "fl (L * ?d) \<le> L * ?d * (1 + u)"
    using e_m by (rule fl_upper) (use L(1) dpos in simp)
  also have "\<dots> \<le> (a1 / ?d * (1 + u)) * ?d * (1 + u)"
    using L1 dpos u(1) by (intro mult_right_mono) simp_all
  also have "\<dots> = a1 * (1 + u) ^ 2"
    using dpos by (simp add: power2_eq_square)
  finally show ?thesis .
qed

lemma roundtrip_amount0:
  fixes fl :: "real \<Rightarrow> real"
  assumes u: "0 \<le> u" "u < 1"
    and d: "0 < d" and p: "0 < p" and h: "0 < h" and a0: "0 \<le> a0"
    and L: "0 \<le> L" "L \<le> fl (fl (fl (a0 * p) * h) / fl d)"
    and e_d: "\<bar>fl d - d\<bar> \<le> u * \<bar>d\<bar>"
    and e_ph: "\<bar>fl (p * h) - p * h\<bar> \<le> u * \<bar>p * h\<bar>"
    and e_n1: "\<bar>fl (a0 * p) - a0 * p\<bar> \<le> u * \<bar>a0 * p\<bar>"
    and e_n2: "\<bar>fl (fl (a0 * p) * h) - fl (a0 * p) * h\<bar> \<le> u * \<bar>fl (a0 * p) * h\<bar>"
    and e_q: "\<bar>fl (fl (fl (a0 * p) * h) / fl d) - fl (fl (a0 * p) * h) / fl d\<bar>
                \<le> u * \<bar>fl (fl (a0 * p) * h) / fl d\<bar>"
    and e_m: "\<bar>fl (L * fl d) - L * fl d\<bar> \<le> u * \<bar>L * fl d\<bar>"
    and e_r: "\<bar>fl (fl (L * fl d) / fl (p * h)) - fl (L * fl d) / fl (p * h)\<bar>
                \<le> u * \<bar>fl (L * fl d) / fl (p * h)\<bar>"
  shows "fl (fl (L * fl d) / fl (p * h)) \<le> a0 * (1 + u) ^ 5 / (1 - u)"
proof -
  let ?d = "fl d" and ?m = "fl (p * h)"
  have u1: "0 < 1 + u" "0 < 1 - u" using u by simp_all
  have dpos: "0 < ?d" using e_d u(2) d by (rule fl_pos)
  have ph: "0 < p * h" using p h by simp
  have mpos: "0 < ?m" using e_ph u(2) ph by (rule fl_pos)
  have mlow: "p * h * (1 - u) \<le> ?m"
    using e_ph by (rule fl_lower) (use ph in simp)
  have n1: "fl (a0 * p) \<le> a0 * p * (1 + u)"
    using e_n1 by (rule fl_upper) (use a0 p in simp)
  have n1pos: "0 \<le> fl (a0 * p)"
    using e_n1 u(2) by (rule fl_nonneg) (use a0 p in simp)
  have n2: "fl (fl (a0 * p) * h) \<le> fl (a0 * p) * h * (1 + u)"
    using e_n2 by (rule fl_upper) (use n1pos h in simp)
  have n2pos: "0 \<le> fl (fl (a0 * p) * h)"
    using e_n2 u(2) by (rule fl_nonneg) (use n1pos h in simp)
  have "fl (a0 * p) * h * (1 + u) \<le> (a0 * p * (1 + u)) * h * (1 + u)"
    using n1 h u1(1) by (intro mult_right_mono) simp_all
  with n2 have N: "fl (fl (a0 * p) * h) \<le> a0 * p * h * (1 + u) ^ 2"
    by (simp add: power2_eq_square algebra_simps)
  have "fl (fl (fl (a0 * p) * h) / ?d) \<le> fl (fl (a0 * p) * h) / ?d * (1 + u)"
    using e_q by (rule fl_upper) (use n2pos dpos in simp)
  also have "\<dots> \<le> (a0 * p * h * (1 + u) ^ 2) / ?d * (1 + u)"
    using N dpos u1(1) by (intro mult_right_mono divide_right_mono) simp_all
  finally have L0: "L \<le> a0 * p * h * (1 + u) ^ 3 / ?d"
    using L(2) by (simp add: power3_eq_cube power2_eq_square algebra_simps)
  have "fl (L * ?d) \<le> L * ?d * (1 + u)"
    using e_m by (rule fl_upper) (use L(1) dpos in simp)
  also have "\<dots> \<le> (a0 * p * h * (1 + u) ^ 3 / ?d) * ?d * (1 + u)"
    using L0 dpos u1(1) by (intro mult_right_mono) simp_all
  also have "\<dots> = a0 * p * h * (1 + u) ^ 4"
    using dpos by (simp add: power_numeral_reduce field_simps)
  finally have s1: "fl (L * ?d) \<le> a0 * p * h * (1 + u) ^ 4" .
  have s1pos: "0 \<le> fl (L * ?d)"
    using e_m u(2) by (rule fl_nonneg) (use L(1) dpos in simp)
  have "fl (fl (L * ?d) / ?m) \<le> fl (L * ?d) / ?m * (1 + u)"
    using e_r by (rule fl_upper) (use s1pos mpos in simp)
  also have "\<dots> \<le> (a0 * p * h * (1 + u) ^ 4) / ?m * (1 + u)"
    using s1 mpos u1(1) by (intro mult_right_mono divide_right_mono) simp_all
  also have "\<dots> = (a0 * (1 + u) ^ 5) * (p * h / ?m)"
    by (simp add: power_numeral_reduce field_simps)
  also have "\<dots> \<le> (a0 * (1 + u) ^ 5) * (1 / (1 - u))"
  proof (intro mult_left_mono)
    have "p * h \<le> ?m / (1 - u)"
      using mlow u1(2) by (simp add: field_simps)
    then show "p * h / ?m \<le> 1 / (1 - u)"
      using mpos u1(2) by (simp add: field_simps)
    show "0 \<le> a0 * (1 + u) ^ 5" using a0 u1(1) by simp
  qed
  finally show ?thesis by simp
qed

text \<open>
  C3 (as amended). For square-root prices \<open>0 \<le> lower < sqrtPrice < upper\<close> and
  non-negative amounts, turning the amounts into liquidity and the liquidity back into
  amounts takes ten different operations. If none of them underflows or overflows,
  so that each is rounded with a relative error of at most \<open>u < 1\<close> (for doubles
  \<open>u = 2^-53\<close>), the amounts returned are \<open>amount0' \<le> amount0 * (1 + u)^5 / (1 - u)\<close>
  and \<open>amount1' \<le> amount1 * (1 + u)^2\<close>. In exact arithmetic \<open>u = 0\<close> and neither
  token is overcommitted; in doubles an amount can come back above what was supplied,
  by rounding only.
\<close>

theorem roundtrip_bound:
  fixes fl :: "real \<Rightarrow> real" and u sqrtPrice lower upper amount0 amount1 :: real
  assumes u: "0 \<le> u" "u < 1"
    and range: "0 \<le> lower" "lower < sqrtPrice" "sqrtPrice < upper"
    and amounts: "0 \<le> amount0" "0 \<le> amount1"
    and ops: "\<forall>x \<in> set
       [amount0 * sqrtPrice,
        fl (amount0 * sqrtPrice) * upper,
        upper - sqrtPrice,
        fl (fl (amount0 * sqrtPrice) * upper) / fl (upper - sqrtPrice),
        sqrtPrice - lower,
        amount1 / fl (sqrtPrice - lower),
        getLiquidityForAmounts fl sqrtPrice lower upper amount0 amount1 * fl (upper - sqrtPrice),
        sqrtPrice * upper,
        fl (getLiquidityForAmounts fl sqrtPrice lower upper amount0 amount1 * fl (upper - sqrtPrice))
          / fl (sqrtPrice * upper),
        getLiquidityForAmounts fl sqrtPrice lower upper amount0 amount1 * fl (sqrtPrice - lower)].
       \<bar>fl x - x\<bar> \<le> u * \<bar>x\<bar>"
  shows "fst (getAmountsForLiquidity fl sqrtPrice lower upper
                (getLiquidityForAmounts fl sqrtPrice lower upper amount0 amount1))
           \<le> amount0 * (1 + u) ^ 5 / (1 - u)
       \<and> snd (getAmountsForLiquidity fl sqrtPrice lower upper
                (getLiquidityForAmounts fl sqrtPrice lower upper amount0 amount1))
           \<le> amount1 * (1 + u) ^ 2"
proof -
  let ?Lzero = "calculateLiquidity0 fl sqrtPrice upper amount0"
  let ?Lone = "calculateLiquidity1 fl lower sqrtPrice amount1"
  let ?Lmin = "min ?Lzero ?Lone"
  have p: "0 < sqrtPrice" and h: "0 < upper" using range by simp_all
  have dh: "0 < upper - sqrtPrice" and dl: "0 < sqrtPrice - lower" using range by simp_all
  have liq: "getLiquidityForAmounts fl sqrtPrice lower upper amount0 amount1 = ?Lmin"
    using range by (simp add: getLiquidityForAmounts_def Let_def)
  have e_n1: "\<bar>fl (amount0 * sqrtPrice) - amount0 * sqrtPrice\<bar> \<le> u * \<bar>amount0 * sqrtPrice\<bar>"
    and e_n2: "\<bar>fl (fl (amount0 * sqrtPrice) * upper) - fl (amount0 * sqrtPrice) * upper\<bar>
                 \<le> u * \<bar>fl (amount0 * sqrtPrice) * upper\<bar>"
    and e_dh: "\<bar>fl (upper - sqrtPrice) - (upper - sqrtPrice)\<bar> \<le> u * \<bar>upper - sqrtPrice\<bar>"
    and e_q0: "\<bar>fl (fl (fl (amount0 * sqrtPrice) * upper) / fl (upper - sqrtPrice))
                  - fl (fl (amount0 * sqrtPrice) * upper) / fl (upper - sqrtPrice)\<bar>
                 \<le> u * \<bar>fl (fl (amount0 * sqrtPrice) * upper) / fl (upper - sqrtPrice)\<bar>"
    and e_dl: "\<bar>fl (sqrtPrice - lower) - (sqrtPrice - lower)\<bar> \<le> u * \<bar>sqrtPrice - lower\<bar>"
    and e_q1: "\<bar>fl (amount1 / fl (sqrtPrice - lower)) - amount1 / fl (sqrtPrice - lower)\<bar>
                 \<le> u * \<bar>amount1 / fl (sqrtPrice - lower)\<bar>"
    and e_m0: "\<bar>fl (?Lmin * fl (upper - sqrtPrice)) - ?Lmin * fl (upper - sqrtPrice)\<bar>
                 \<le> u * \<bar>?Lmin * fl (upper - sqrtPrice)\<bar>"
    and e_ph: "\<bar>fl (sqrtPrice * upper) - sqrtPrice * upper\<bar> \<le> u * \<bar>sqrtPrice * upper\<bar>"
    and e_r0: "\<bar>fl (fl (?Lmin * fl (upper - sqrtPrice)) / fl (sqrtPrice * upper))
                  - fl (?Lmin * fl (upper - sqrtPrice)) / fl (sqrtPrice * upper)\<bar>
                 \<le> u * \<bar>fl (?Lmin * fl (upper - sqrtPrice)) / fl (sqrtPrice * upper)\<bar>"
    and e_m1: "\<bar>fl (?Lmin * fl (sqrtPrice - lower)) - ?Lmin * fl (sqrtPrice - lower)\<bar>
                 \<le> u * \<bar>?Lmin * fl (sqrtPrice - lower)\<bar>"
    using ops unfolding liq by simp_all
  have dhpos: "0 < fl (upper - sqrtPrice)" using e_dh u(2) dh by (rule fl_pos)
  have dlpos: "0 < fl (sqrtPrice - lower)" using e_dl u(2) dl by (rule fl_pos)
  have n1pos: "0 \<le> fl (amount0 * sqrtPrice)"
    using e_n1 u(2) by (rule fl_nonneg) (use amounts(1) p in simp)
  have n2pos: "0 \<le> fl (fl (amount0 * sqrtPrice) * upper)"
    using e_n2 u(2) by (rule fl_nonneg) (use n1pos h in simp)
  have L0: "0 \<le> ?Lzero"
    unfolding calculateLiquidity0_def Let_def
    using e_q0 u(2) by (rule fl_nonneg) (use n2pos dhpos in simp)
  have L1: "0 \<le> ?Lone"
    unfolding calculateLiquidity1_def
    using e_q1 u(2) by (rule fl_nonneg) (use amounts(2) dlpos in simp)
  have L: "0 \<le> ?Lmin" using L0 L1 by simp
  have am: "getAmountsForLiquidity fl sqrtPrice lower upper ?Lmin
      = (calculateAmount0 fl sqrtPrice upper ?Lmin, calculateAmount1 fl lower sqrtPrice ?Lmin)"
    using range by (simp add: getAmountsForLiquidity_def Let_def)
  have le0: "?Lmin \<le> fl (fl (fl (amount0 * sqrtPrice) * upper) / fl (upper - sqrtPrice))"
    by (simp add: calculateLiquidity0_def Let_def)
  have le1: "?Lmin \<le> fl (amount1 / fl (sqrtPrice - lower))"
    by (simp add: calculateLiquidity1_def)
  have b0: "calculateAmount0 fl sqrtPrice upper ?Lmin \<le> amount0 * (1 + u) ^ 5 / (1 - u)"
    unfolding calculateAmount0_def
    by (rule roundtrip_amount0 [OF u dh p h amounts(1) L le0 e_dh e_ph e_n1 e_n2 e_q0 e_m0 e_r0])
  have b1: "calculateAmount1 fl lower sqrtPrice ?Lmin \<le> amount1 * (1 + u) ^ 2"
    unfolding calculateAmount1_def
    by (rule roundtrip_amount1 [OF u dl amounts(2) L le1 e_dl e_q1 e_m1])
  show ?thesis
    unfolding liq am using b0 b1 by simp
qed

text \<open>
  The doubles of one round trip: \<open>sqrtPrice = 2\<close>, bounds \<open>1\<close> and \<open>3\<close>,
  \<open>amount1 = 1e9\<close> and \<open>amount0\<close> the double \<open>0.1\<close>, which is \<open>7205759403792794 / 2^56\<close>.
\<close>

lemma tenth_liquidity:
  "getLiquidityForAmounts round_double 2 1 3 (7205759403792794 / 2 ^ 56) (10 ^ 9)
     = 5404319552844596 / 2 ^ 53"
proof -
  let ?a = "7205759403792794 / 2 ^ 56 :: real"
  let ?x = "3602879701896397 / 2 ^ 54 :: real"
  let ?y = "5404319552844596 / 2 ^ 53 :: real"
  have c: "\<not> (3::real) < 1" "\<not> (2::real) \<le> 1" "(2::real) < 3" by simp_all
  have x: "round_double (?a * 2) = ?x"
    by (subst round_double_eval [where e = "- 55"]) (simp_all add: round_half_even_def)
  have y: "round_double (?x * 3) = ?y"
    by (subst round_double_eval [where e = "- 53"]) (simp_all add: round_half_even_def)
  have d32: "round_double (3 - 2) = 1"
    by (subst round_double_eval [where e = "- 52"]) (simp_all add: round_half_even_def)
  have d21: "round_double (2 - 1) = 1"
    by (subst round_double_eval [where e = "- 52"]) (simp_all add: round_half_even_def)
  have y1: "round_double (?y / 1) = ?y"
    by (subst round_double_eval [where e = "- 53"]) (simp_all add: round_half_even_def)
  have b1: "round_double (10 ^ 9 / 1) = 10 ^ 9"
    by (subst round_double_eval [where e = "- 23"]) (simp_all add: round_half_even_def)
  have mn: "min ?y (10 ^ 9) = ?y" by simp
  show ?thesis
    unfolding getLiquidityForAmounts_def calculateLiquidity0_def calculateLiquidity1_def
    by (simp only: c if_True if_False prod.case Let_def x y d32 d21 y1 b1 mn)
qed

lemma tenth_amounts:
  "getAmountsForLiquidity round_double 2 1 3 (5404319552844596 / 2 ^ 53)
     = (7205759403792795 / 2 ^ 56, 5404319552844596 / 2 ^ 53)"
proof -
  let ?y = "5404319552844596 / 2 ^ 53 :: real"
  let ?z = "7205759403792795 / 2 ^ 56 :: real"
  have c: "\<not> (3::real) < 1" "\<not> (2::real) \<le> 1" "(2::real) < 3" by simp_all
  have d32: "round_double (3 - 2) = 1"
    by (subst round_double_eval [where e = "- 52"]) (simp_all add: round_half_even_def)
  have d21: "round_double (2 - 1) = 1"
    by (subst round_double_eval [where e = "- 52"]) (simp_all add: round_half_even_def)
  have m1: "round_double (?y * 1) = ?y"
    by (subst round_double_eval [where e = "- 53"]) (simp_all add: round_half_even_def)
  have m6: "round_double (2 * 3) = 6"
    by (subst round_double_eval [where e = "- 50"]) (simp_all add: round_half_even_def)
  have z: "round_double (?y / 6) = ?z"
    by (subst round_double_eval [where e = "- 56"]) (simp_all add: round_half_even_def)
  show ?thesis
    unfolding getAmountsForLiquidity_def calculateAmount0_def calculateAmount1_def
    by (simp only: c if_True if_False prod.case Let_def d32 d21 m1 m6 z)
qed

lemma tenth_operations:
  "\<forall>x \<in> set
       [7205759403792794 / 2 ^ 56 * 2,
        round_double (7205759403792794 / 2 ^ 56 * 2) * 3,
        3 - 2,
        round_double (round_double (7205759403792794 / 2 ^ 56 * 2) * 3) / round_double (3 - 2),
        2 - 1,
        10 ^ 9 / round_double (2 - 1),
        getLiquidityForAmounts round_double 2 1 3 (7205759403792794 / 2 ^ 56) (10 ^ 9) * round_double (3 - 2),
        2 * 3,
        round_double (getLiquidityForAmounts round_double 2 1 3 (7205759403792794 / 2 ^ 56) (10 ^ 9)
                        * round_double (3 - 2))
          / round_double (2 * 3),
        getLiquidityForAmounts round_double 2 1 3 (7205759403792794 / 2 ^ 56) (10 ^ 9) * round_double (2 - 1)].
       \<bar>round_double x - x\<bar> \<le> (1 / 2 ^ 53) * \<bar>x\<bar>"
proof -
  have "\<bar>round_double x - x\<bar> \<le> (1 / 2 ^ 53) * \<bar>x\<bar>" if "1 / 2 ^ 10 \<le> \<bar>x\<bar>" for x :: real
  proof (rule round_double_error)
    have "(2::real) powi (- 1022) \<le> 2 powi (- 10)"
      by (rule power_int_increasing) simp_all
    also have "\<dots> = 1 / 2 ^ 10" by (simp add: power_int_minus field_simps)
    finally show "2 powi (- 1022) \<le> \<bar>x\<bar>" using that by simp
  qed
  note err = this
  let ?a = "7205759403792794 / 2 ^ 56 :: real"
  let ?x = "3602879701896397 / 2 ^ 54 :: real"
  let ?y = "5404319552844596 / 2 ^ 53 :: real"
  have x: "round_double (?a * 2) = ?x"
    by (subst round_double_eval [where e = "- 55"]) (simp_all add: round_half_even_def)
  have y: "round_double (?x * 3) = ?y"
    by (subst round_double_eval [where e = "- 53"]) (simp_all add: round_half_even_def)
  have d32: "round_double (3 - 2) = 1"
    by (subst round_double_eval [where e = "- 52"]) (simp_all add: round_half_even_def)
  have d21: "round_double (2 - 1) = 1"
    by (subst round_double_eval [where e = "- 52"]) (simp_all add: round_half_even_def)
  have m1: "round_double (?y * 1) = ?y"
    by (subst round_double_eval [where e = "- 53"]) (simp_all add: round_half_even_def)
  have m6: "round_double (2 * 3) = 6"
    by (subst round_double_eval [where e = "- 50"]) (simp_all add: round_half_even_def)
  show ?thesis
    unfolding tenth_liquidity
    by (simp only: list.set ball_simps x y d32 d21 m1 m6) (intro conjI err; simp)
qed

theorem roundtrip_bound_witness:
  "fst (getAmountsForLiquidity round_double 2 1 3
          (getLiquidityForAmounts round_double 2 1 3 (7205759403792794 / 2 ^ 56) (10 ^ 9)))
     \<le> 7205759403792794 / 2 ^ 56 * (1 + 1 / 2 ^ 53) ^ 5 / (1 - 1 / 2 ^ 53)
   \<and> snd (getAmountsForLiquidity round_double 2 1 3
          (getLiquidityForAmounts round_double 2 1 3 (7205759403792794 / 2 ^ 56) (10 ^ 9)))
     \<le> 10 ^ 9 * (1 + 1 / 2 ^ 53) ^ 2
   \<and> fst (getAmountsForLiquidity round_double 2 1 3
          (getLiquidityForAmounts round_double 2 1 3 (7205759403792794 / 2 ^ 56) (10 ^ 9)))
     = 7205759403792795 / 2 ^ 56
   \<and> snd (getAmountsForLiquidity round_double 2 1 3
          (getLiquidityForAmounts round_double 2 1 3 (7205759403792794 / 2 ^ 56) (10 ^ 9)))
     = 5404319552844596 / 2 ^ 53
   \<and> fst (getAmountsForLiquidity (\<lambda>x. x) 2 1 3
          (getLiquidityForAmounts (\<lambda>x. x) 2 1 3 (1 / 10) (10 ^ 9))) \<le> 1 / 10
   \<and> snd (getAmountsForLiquidity (\<lambda>x. x) 2 1 3
          (getLiquidityForAmounts (\<lambda>x. x) 2 1 3 (1 / 10) (10 ^ 9))) \<le> 10 ^ 9"
proof -
  have dbl: "fst (getAmountsForLiquidity round_double 2 1 3
          (getLiquidityForAmounts round_double 2 1 3 (7205759403792794 / 2 ^ 56) (10 ^ 9)))
     \<le> 7205759403792794 / 2 ^ 56 * (1 + 1 / 2 ^ 53) ^ 5 / (1 - 1 / 2 ^ 53)
   \<and> snd (getAmountsForLiquidity round_double 2 1 3
          (getLiquidityForAmounts round_double 2 1 3 (7205759403792794 / 2 ^ 56) (10 ^ 9)))
     \<le> 10 ^ 9 * (1 + 1 / 2 ^ 53) ^ 2"
    by (rule roundtrip_bound [where fl = round_double and u = "1 / 2 ^ 53",
          OF _ _ _ _ _ _ _ tenth_operations]) simp_all
  have val: "getAmountsForLiquidity round_double 2 1 3
          (getLiquidityForAmounts round_double 2 1 3 (7205759403792794 / 2 ^ 56) (10 ^ 9))
     = (7205759403792795 / 2 ^ 56, 5404319552844596 / 2 ^ 53)"
    by (simp only: tenth_liquidity tenth_amounts)
  have exact: "fst (getAmountsForLiquidity (\<lambda>x. x) 2 1 3
          (getLiquidityForAmounts (\<lambda>x. x) 2 1 3 (1 / 10) (10 ^ 9))) \<le> 1 / 10 * (1 + 0) ^ 5 / (1 - 0)
   \<and> snd (getAmountsForLiquidity (\<lambda>x. x) 2 1 3
          (getLiquidityForAmounts (\<lambda>x. x) 2 1 3 (1 / 10) (10 ^ 9))) \<le> 10 ^ 9 * (1 + 0) ^ 2"
    by (rule roundtrip_bound [where fl = "\<lambda>x. x" and u = 0]) simp_all
  have dv: "fst (getAmountsForLiquidity round_double 2 1 3
          (getLiquidityForAmounts round_double 2 1 3 (7205759403792794 / 2 ^ 56) (10 ^ 9)))
     \<le> 7205759403792794 / 2 ^ 56 * (1 + 1 / 2 ^ 53) ^ 5 / (1 - 1 / 2 ^ 53)
   \<and> snd (getAmountsForLiquidity round_double 2 1 3
          (getLiquidityForAmounts round_double 2 1 3 (7205759403792794 / 2 ^ 56) (10 ^ 9)))
     \<le> 10 ^ 9 * (1 + 1 / 2 ^ 53) ^ 2
   \<and> fst (getAmountsForLiquidity round_double 2 1 3
          (getLiquidityForAmounts round_double 2 1 3 (7205759403792794 / 2 ^ 56) (10 ^ 9)))
     = 7205759403792795 / 2 ^ 56
   \<and> snd (getAmountsForLiquidity round_double 2 1 3
          (getLiquidityForAmounts round_double 2 1 3 (7205759403792794 / 2 ^ 56) (10 ^ 9)))
     = 5404319552844596 / 2 ^ 53"
    using dbl val by (simp only: fst_conv snd_conv)
  from exact have ex: "fst (getAmountsForLiquidity (\<lambda>x. x) 2 1 3
          (getLiquidityForAmounts (\<lambda>x. x) 2 1 3 (1 / 10) (10 ^ 9))) \<le> 1 / 10
   \<and> snd (getAmountsForLiquidity (\<lambda>x. x) 2 1 3
          (getLiquidityForAmounts (\<lambda>x. x) 2 1 3 (1 / 10) (10 ^ 9))) \<le> 10 ^ 9"
    by simp
  from dv ex show ?thesis by blast
qed

text \<open>
  The claim as first stated has the amounts come back at most as large as supplied.
  With the doubles above the liquidity is \<open>0.6000000000000001\<close> and \<open>amount0\<close> comes
  back as \<open>7205759403792795 / 2^56\<close>, the next double above \<open>0.1\<close>.
\<close>

theorem roundtrip_overshoot_counterexample:
  "(0::real) \<le> 1 \<and> (1::real) < 2 \<and> (2::real) < 3
   \<and> fst (getAmountsForLiquidity round_double 2 1 3
          (getLiquidityForAmounts round_double 2 1 3 (7205759403792794 / 2 ^ 56) (10 ^ 9)))
       = 7205759403792795 / 2 ^ 56
   \<and> \<not> fst (getAmountsForLiquidity round_double 2 1 3
          (getLiquidityForAmounts round_double 2 1 3 (7205759403792794 / 2 ^ 56) (10 ^ 9)))
         \<le> 7205759403792794 / 2 ^ 56"
  by (simp only: tenth_liquidity tenth_amounts fst_conv) simp

section \<open>Properties of the price conversions\<close>

text \<open>
  C9 (as amended). \<open>priceToTick\<close> and \<open>tickToPrice\<close> check nothing and never fail.
  \<open>priceToTick\<close> returns \<open>NaN\<close> for a negative price, \<open>-Infinity\<close> for the price \<open>0\<close>
  and an integer for a positive price; \<open>tickToPrice\<close> returns a number for every
  tick, inside \<open>[MIN_TICK, MAX_TICK]\<close> or not.
\<close>

theorem conversions_never_fail:
  "(price < 0 \<longrightarrow> priceToTick_call fl price = Inr NaN)
   \<and> (price = 0 \<longrightarrow> priceToTick_call fl price = Inr NegInfinity)
   \<and> (0 < price \<longrightarrow> (\<exists>n::int. priceToTick_call fl price = Inr (Num (of_int n))))
   \<and> (\<exists>v. tickToPrice_call fl tick = Inr v)"
  by (simp add: priceToTick_call_def tickToPrice_call_def priceToTick_def)

theorem conversions_never_fail_witness:
  "priceToTick_call round_double (- 2) = Inr NaN
   \<and> priceToTick_call round_double 0 = Inr NegInfinity
   \<and> (\<exists>n::int. priceToTick_call round_double 1 = Inr (Num (of_int n)))
   \<and> priceToTick_call round_double 1 = Inr (Num 0)
   \<and> (\<exists>v. tickToPrice_call round_double 0 = Inr v)
   \<and> tickToPrice_call round_double 0 = Inr 1"
proof -
  have one: "round_double 1 = 1"
    by (subst round_double_eval [where e = "- 52"]) (simp_all add: round_half_even_def)
  have p1: "priceToTick_call round_double 1 = Inr (Num 0)"
    by (simp add: priceToTick_call_def priceToTick_def round_double_zero)
  have t0: "tickToPrice_call round_double 0 = Inr 1"
    by (simp add: tickToPrice_call_def tickToPrice_def one)
  from conversions_never_fail [of "- 2" round_double 0]
       conversions_never_fail [of 0 round_double 0]
       conversions_never_fail [of 1 round_double 0] p1 t0
  show ?thesis by simp
qed

text \<open>
  The claim as first stated wants \<open>InvalidPrice\<close> for a price that is not positive
  and \<open>TickOutOfRange\<close> for a tick beyond \<open>MAX_TICK\<close>. The calls below return values.
\<close>

theorem conversions_unchecked_counterexample:
  "priceToTick_call round_double (- 1) = Inr NaN
   \<and> priceToTick_call round_double (- 1) \<noteq> Inl InvalidPrice
   \<and> priceToTick_call round_double 0 = Inr NegInfinity
   \<and> priceToTick_call round_double 0 \<noteq> Inl InvalidPrice
   \<and> MAX_TICK < 887273
   \<and> tickToPrice_call round_double 887273 = Inr (tickToPrice round_double 887273)
   \<and> tickToPrice_call round_double 887273 \<noteq> Inl TickOutOfRange"
  by (simp add: priceToTick_call_def priceToTick_def MAX_TICK_def tickToPrice_call_def)

section \<open>Properties of the tick index\<close>

text \<open>What \<open>addTick\<close> does to the stored ticks: to their order, to a sum over them, to their set.\<close>

lemma addTick_sorted: "sorted (map index (liquidityTicks (addTick s i n g)))"
  by (simp add: addTick_def)

lemma addTick_sum:
  fixes f :: "tick \<Rightarrow> real"
  shows "sum_list (map f (liquidityTicks (addTick s i n g)))
     = sum_list (map f (liquidityTicks s)) + f \<lparr>index = i, liquidityNet = n, liquidityGross = g\<rparr>"
proof -
  let ?new = "\<lparr>index = i, liquidityNet = n, liquidityGross = g\<rparr>"
  have "mset (map f (sort_key index (liquidityTicks s @ [?new]))) = mset (map f (liquidityTicks s @ [?new]))"
    by simp
  then have "sum_mset (mset (map f (sort_key index (liquidityTicks s @ [?new]))))
      = sum_mset (mset (map f (liquidityTicks s @ [?new])))"
    by (rule arg_cong)
  then have "sum_list (map f (sort_key index (liquidityTicks s @ [?new])))
      = sum_list (map f (liquidityTicks s @ [?new]))"
    by (simp only: sum_mset_sum_list)
  then show ?thesis by (simp add: addTick_def)
qed

lemma addTick_set:
  "set (liquidityTicks (addTick s i n g))
     = insert \<lparr>index = i, liquidityNet = n, liquidityGross = g\<rparr> (set (liquidityTicks s))"
  by (simp add: addTick_def)

lemma initializePool_sorted:
  assumes "sorted (map index (liquidityTicks s))"
  shows "sorted (map index (liquidityTicks (initializePoolAtTicks s ps)))"
  using assms unfolding initializePoolAtTicks_def
proof (induction ps arbitrary: s)
  case Nil
  then show ?case by simp
next
  case (Cons p ps)
  have "sorted (map index (liquidityTicks (addLiquidityAtTicks s p)))"
    by (simp add: addLiquidityAtTicks_def addTick_sorted)
  then show ?case using Cons.IH by simp
qed

lemma addLiquidityAtTicks_sum:
  fixes f :: "tick \<Rightarrow> real"
  shows "sum_list (map f (liquidityTicks (addLiquidityAtTicks s p)))
     = sum_list (map f (liquidityTicks s))
       + (f \<lparr>index = lowerTick p, liquidityNet = liquidity p, liquidityGross = liquidity p\<rparr>
          + f \<lparr>index = upperTick p, liquidityNet = - liquidity p, liquidityGross = liquidity p\<rparr>)"
  by (simp add: addLiquidityAtTicks_def addTick_sum)

lemma initializePool_sum:
  fixes f :: "tick \<Rightarrow> real"
  shows "sum_list (map f (liquidityTicks (initializePoolAtTicks s ps)))
     = sum_list (map f (liquidityTicks s))
       + (\<Sum>p\<leftarrow>ps. f \<lparr>index = lowerTick p, liquidityNet = liquidity p, liquidityGross = liquidity p\<rparr>
                  + f \<lparr>index = upperTick p, liquidityNet = - liquidity p, liquidityGross = liquidity p\<rparr>)"
  unfolding initializePoolAtTicks_def
proof (induction ps arbitrary: s)
  case Nil
  then show ?case by simp
next
  case (Cons p ps)
  show ?case
    by (simp add: Cons.IH addLiquidityAtTicks_sum)
qed

lemma initializePool_whole:
  assumes "\<forall>t\<in>set (liquidityTicks s). liquidityNet t \<in> \<int>"
    and "\<forall>p\<in>set ps. liquidity p \<in> \<nat>"
  shows "\<forall>t\<in>set (liquidityTicks (initializePoolAtTicks s ps)). liquidityNet t \<in> \<int>"
  using assms unfolding initializePoolAtTicks_def
proof (induction ps arbitrary: s)
  case Nil
  then show ?case by simp
next
  case (Cons p ps)
  have "liquidity p \<in> \<nat>" using Cons.prems(2) by simp
  then have "liquidity p \<in> \<int>" by (rule Nats_subset_Ints [THEN subsetD, rotated])
  then have "\<forall>t\<in>set (liquidityTicks (addLiquidityAtTicks s p)). liquidityNet t \<in> \<int>"
    using Cons.prems(1) by (auto simp: addLiquidityAtTicks_def addTick_set)
  then show ?case using Cons.IH Cons.prems(2) by simp
qed

text \<open>
  The walk of \<open>getActiveLiquidity\<close>: over ticks sorted by index it adds the net
  liquidity of exactly the ticks at or below the current one; and as long as the
  partial sums are integers that \<open>fl\<close> leaves alone, the rounding changes nothing.
\<close>

lemma activeLoop_sorted:
  assumes "sorted (map index ts)"
  shows "activeLoop (\<lambda>x. x) (Num (of_int T)) ts acc
           = acc + (\<Sum>t\<leftarrow>ts. if index t \<le> T then liquidityNet t else 0)"
  using assms
proof (induction ts arbitrary: acc)
  case Nil
  then show ?case by simp
next
  case (Cons t ts)
  show ?case
  proof (cases "index t \<le> T")
    case True
    then show ?thesis using Cons by simp
  next
    case False
    have "\<forall>u \<in> set ts. index t \<le> index u" using Cons.prems by simp
    then have "\<forall>u \<in> set ts. \<not> index u \<le> T" using False by auto
    then have "(\<Sum>u\<leftarrow>ts. if index u \<le> T then liquidityNet u else 0) = 0"
      by (induction ts) simp_all
    then show ?thesis using False by simp
  qed
qed

lemma activeLoop_exact:
  fixes fl :: "real \<Rightarrow> real" and B :: int
  assumes exact: "\<forall>n::int. \<bar>n\<bar> \<le> B \<longrightarrow> fl (of_int n) = of_int n"
    and "\<forall>t\<in>set ts. liquidityNet t \<in> \<int>" and "acc \<in> \<int>"
    and "\<bar>acc\<bar> + (\<Sum>t\<leftarrow>ts. \<bar>liquidityNet t\<bar>) \<le> of_int B"
  shows "activeLoop fl cur ts acc = activeLoop (\<lambda>x. x) cur ts acc"
  using assms(2-)
proof (induction ts arbitrary: acc)
  case Nil
  then show ?case by simp
next
  case (Cons t ts)
  from Cons.prems(1) obtain n :: int where n: "liquidityNet t = of_int n"
    by (auto elim: Ints_cases)
  from Cons.prems(2) obtain a :: int where a: "acc = of_int a"
    by (auto elim: Ints_cases)
  have nonneg: "0 \<le> (\<Sum>t\<leftarrow>ts. \<bar>liquidityNet t\<bar>)"
    by (rule sum_list_nonneg) auto
  have "\<bar>acc + liquidityNet t\<bar> \<le> \<bar>acc\<bar> + \<bar>liquidityNet t\<bar>" by simp
  then have bound: "\<bar>acc + liquidityNet t\<bar> + (\<Sum>t\<leftarrow>ts. \<bar>liquidityNet t\<bar>) \<le> of_int B"
    using Cons.prems(3) by simp
  then have "real_of_int \<bar>a + n\<bar> \<le> of_int B"
    using nonneg by (simp add: a n)
  then have "\<bar>a + n\<bar> \<le> B" by (simp only: of_int_le_iff)
  then have "fl (of_int (a + n)) = of_int (a + n)" using exact by blast
  then have step: "fl (acc + liquidityNet t) = acc + liquidityNet t"
    by (simp add: a n)
  have "acc + liquidityNet t \<in> \<int>" by (simp add: a n)
  then have "activeLoop fl cur ts (acc + liquidityNet t)
      = activeLoop (\<lambda>x. x) cur ts (acc + liquidityNet t)"
    using Cons.prems(1) bound by (intro Cons.IH) simp_all
  then show ?case by (simp add: step)
qed

text \<open>
  C4 (as amended). Build the tick index from a list of positions on a simulator
  that has no ticks yet, with \<open>addTick(lowerTick, +L, L)\<close> and
  \<open>addTick(upperTick, -L, L)\<close> for each position, where every position has
  \<open>lowerTick \<le> upperTick\<close>, every liquidity is a non-negative integer and twice
  the total liquidity is at most \<open>B\<close>, a bound up to which the rounding leaves every
  integer as it is (\<open>2^53\<close> for doubles). Then the active liquidity reported at any
  tick \<open>t\<close> is the sum of the liquidity of exactly the positions whose range contains
  \<open>t\<close>, that is, with \<open>lowerTick \<le> t < upperTick\<close>.
\<close>

theorem activeLiquidity_of_positions:
  fixes fl :: "real \<Rightarrow> real" and B :: int
  assumes exact: "\<forall>n::int. \<bar>n\<bar> \<le> B \<longrightarrow> fl (of_int n) = of_int n"
    and fresh: "liquidityTicks s0 = []"
    and order: "\<forall>p\<in>set ps. lowerTick p \<le> upperTick p"
    and whole: "\<forall>p\<in>set ps. liquidity p \<in> \<nat>"
    and total: "2 * (\<Sum>p\<leftarrow>ps. liquidity p) \<le> of_int B"
  shows "getActiveLiquidity fl ((initializePoolAtTicks s0 ps)\<lparr>currentTick := Num (of_int t)\<rparr>)
     = (\<Sum>p\<leftarrow>ps. if lowerTick p \<le> t \<and> t < upperTick p then liquidity p else 0)"
proof -
  let ?ts = "liquidityTicks (initializePoolAtTicks s0 ps)"
  have srt: "sorted (map index ?ts)"
    by (rule initializePool_sorted) (simp add: fresh)
  have ints: "\<forall>t\<in>set ?ts. liquidityNet t \<in> \<int>"
    by (rule initializePool_whole) (simp_all add: fresh whole)
  have "(\<Sum>t\<leftarrow>?ts. \<bar>liquidityNet t\<bar>) = (\<Sum>p\<leftarrow>ps. \<bar>liquidity p\<bar> + \<bar>- liquidity p\<bar>)"
    using initializePool_sum [of "\<lambda>t. \<bar>liquidityNet t\<bar>" s0 ps] by (simp add: fresh)
  also have "\<dots> = (\<Sum>p\<leftarrow>ps. 2 * liquidity p)"
  proof (rule arg_cong [where f = sum_list], rule map_cong [OF refl])
    fix p assume "p \<in> set ps"
    then have "liquidity p \<in> \<nat>" using whole by simp
    then obtain k :: nat where "liquidity p = of_nat k" by (auto elim: Nats_cases)
    then have "0 \<le> liquidity p" by simp
    then show "\<bar>liquidity p\<bar> + \<bar>- liquidity p\<bar> = 2 * liquidity p" by simp
  qed
  also have "\<dots> = 2 * (\<Sum>p\<leftarrow>ps. liquidity p)"
    by (simp add: sum_list_const_mult)
  finally have abs_sum: "\<bar>0\<bar> + (\<Sum>t\<leftarrow>?ts. \<bar>liquidityNet t\<bar>) \<le> of_int B"
    using total by simp
  have "getActiveLiquidity fl ((initializePoolAtTicks s0 ps)\<lparr>currentTick := Num (of_int t)\<rparr>)
      = activeLoop fl (Num (of_int t)) ?ts 0"
    by (simp add: getActiveLiquidity_def)
  also have "\<dots> = activeLoop (\<lambda>x. x) (Num (of_int t)) ?ts 0"
    using exact ints _ abs_sum by (rule activeLoop_exact) simp
  also have "\<dots> = (\<Sum>u\<leftarrow>?ts. if index u \<le> t then liquidityNet u else 0)"
    using activeLoop_sorted [OF srt, of t 0] by simp
  also have "\<dots> = (\<Sum>p\<leftarrow>ps. (if lowerTick p \<le> t then liquidity p else 0)
                             + (if upperTick p \<le> t then - liquidity p else 0))"
    using initializePool_sum [of "\<lambda>u. if index u \<le> t then liquidityNet u else 0" s0 ps]
    by (simp add: fresh cong: if_cong)
  also have "\<dots> = (\<Sum>p\<leftarrow>ps. if lowerTick p \<le> t \<and> t < upperTick p then liquidity p else 0)"
  proof (rule arg_cong [where f = sum_list], rule map_cong [OF refl])
    fix p assume "p \<in> set ps"
    then have "lowerTick p \<le> upperTick p" using order by simp
    then show "(if lowerTick p \<le> t then liquidity p else 0) + (if upperTick p \<le> t then - liquidity p else 0)
        = (if lowerTick p \<le> t \<and> t < upperTick p then liquidity p else 0)"
      by auto
  qed
  finally show ?thesis .
qed

text \<open>
  Two positions, of liquidity \<open>5\<close> over the ticks \<open>[0, 20)\<close> and \<open>7\<close> over \<open>[10, 30)\<close>,
  in doubles: at tick \<open>15\<close> both are active, at tick \<open>20\<close> only the second.
\<close>

theorem activeLiquidity_of_positions_witness:
  "liquidityTicks (initializePoolAtTicks
      \<lparr>feeTier = FEE_MEDIUM, initialPrice = 1, currentPrice = 1, currentSqrtPriceX96 = Q96,
       currentTick = Num 0, liquidityTicks = [], swapSteps = []\<rparr>
      [\<lparr>lowerTick = 0, upperTick = 20, liquidity = 5\<rparr>,
       \<lparr>lowerTick = 10, upperTick = 30, liquidity = 7\<rparr>])
    = [\<lparr>index = 0, liquidityNet = 5, liquidityGross = 5\<rparr>,
       \<lparr>index = 10, liquidityNet = 7, liquidityGross = 7\<rparr>,
       \<lparr>index = 20, liquidityNet = - 5, liquidityGross = 5\<rparr>,
       \<lparr>index = 30, liquidityNet = - 7, liquidityGross = 7\<rparr>]
   \<and> getActiveLiquidity round_double ((initializePoolAtTicks
      \<lparr>feeTier = FEE_MEDIUM, initialPrice = 1, currentPrice = 1, currentSqrtPriceX96 = Q96,
       currentTick = Num 0, liquidityTicks = [], swapSteps = []\<rparr>
      [\<lparr>lowerTick = 0, upperTick = 20, liquidity = 5\<rparr>,
       \<lparr>lowerTick = 10, upperTick = 30, liquidity = 7\<rparr>])\<lparr>currentTick := Num 15\<rparr>) = 12
   \<and> getActiveLiquidity round_double ((initializePoolAtTicks
      \<lparr>feeTier = FEE_MEDIUM, initialPrice = 1, currentPrice = 1, currentSqrtPriceX96 = Q96,
       currentTick = Num 0, liquidityTicks = [], swapSteps = []\<rparr>
      [\<lparr>lowerTick = 0, upperTick = 20, liquidity = 5\<rparr>,
       \<lparr>lowerTick = 10, upperTick = 30, liquidity = 7\<rparr>])\<lparr>currentTick := Num 20\<rparr>) = 7"
proof -
  let ?fresh = "\<lparr>feeTier = FEE_MEDIUM, initialPrice = 1, currentPrice = 1, currentSqrtPriceX96 = Q96,
       currentTick = Num 0, liquidityTicks = [], swapSteps = []\<rparr>"
  let ?ps = "[\<lparr>lowerTick = 0, upperTick = 20, liquidity = 5\<rparr>,
       \<lparr>lowerTick = 10, upperTick = 30, liquidity = 7\<rparr>]"
  have exact: "\<forall>n::int. \<bar>n\<bar> \<le> 2 ^ 53 - 1 \<longrightarrow> round_double (of_int n) = of_int n"
    by (intro allI impI round_double_int) simp
  have empty: "liquidityTicks ?fresh = []" by simp
  have order: "\<forall>p\<in>set ?ps. lowerTick p \<le> upperTick p" by simp
  have whole: "\<forall>p\<in>set ?ps. liquidity p \<in> \<nat>" by simp
  have total: "2 * (\<Sum>p\<leftarrow>?ps. liquidity p) \<le> of_int (2 ^ 53 - 1)" by simp
  have built: "liquidityTicks (initializePoolAtTicks ?fresh ?ps)
    = [\<lparr>index = 0, liquidityNet = 5, liquidityGross = 5\<rparr>,
       \<lparr>index = 10, liquidityNet = 7, liquidityGross = 7\<rparr>,
       \<lparr>index = 20, liquidityNet = - 5, liquidityGross = 5\<rparr>,
       \<lparr>index = 30, liquidityNet = - 7, liquidityGross = 7\<rparr>]"
    by (simp add: initializePoolAtTicks_def addLiquidityAtTicks_def addTick_def)
  have a15: "getActiveLiquidity round_double ((initializePoolAtTicks ?fresh ?ps)\<lparr>currentTick := Num (of_int 15)\<rparr>) = 12"
    by (subst activeLiquidity_of_positions [OF exact empty order whole total]) simp
  have a20: "getActiveLiquidity round_double ((initializePoolAtTicks ?fresh ?ps)\<lparr>currentTick := Num (of_int 20)\<rparr>) = 7"
    by (subst activeLiquidity_of_positions [OF exact empty order whole total]) simp
  from built a15 a20 show ?thesis by simp
qed

text \<open>
  The claim as first stated has no condition on the liquidity. The source adds
  doubles in the order of the ticks, and the additions round. With the liquidity
  \<open>0.1\<close> over the ticks \<open>[0, 20)\<close> and \<open>0.2\<close> over \<open>[10, 30)\<close>, the doubles
  \<open>3602879701896397 / 2^55\<close> and \<open>3602879701896397 / 2^54\<close>, no position contains
  the tick \<open>35\<close>, and the active liquidity reported there is \<open>2^-55\<close>, not \<open>0\<close>.
\<close>

theorem activeLiquidity_rounding_counterexample:
  "(\<Sum>p\<leftarrow>[\<lparr>lowerTick = 0, upperTick = 20, liquidity = 3602879701896397 / 2 ^ 55\<rparr>,
           \<lparr>lowerTick = 10, upperTick = 30, liquidity = 3602879701896397 / 2 ^ 54\<rparr>].
       if lowerTick p \<le> 35 \<and> 35 < upperTick p then liquidity p else 0) = 0
   \<and> getActiveLiquidity round_double ((initializePoolAtTicks
      \<lparr>feeTier = FEE_MEDIUM, initialPrice = 1, currentPrice = 1, currentSqrtPriceX96 = Q96,
       currentTick = Num 0, liquidityTicks = [], swapSteps = []\<rparr>
      [\<lparr>lowerTick = 0, upperTick = 20, liquidity = 3602879701896397 / 2 ^ 55\<rparr>,
       \<lparr>lowerTick = 10, upperTick = 30, liquidity = 3602879701896397 / 2 ^ 54\<rparr>])
         \<lparr>currentTick := Num 35\<rparr>) = 1 / 2 ^ 55"
proof -
  let ?fresh = "\<lparr>feeTier = FEE_MEDIUM, initialPrice = 1, currentPrice = 1, currentSqrtPriceX96 = Q96,
       currentTick = Num 0, liquidityTicks = [], swapSteps = []\<rparr>"
  let ?a = "3602879701896397 / 2 ^ 55 :: real"
  let ?b = "3602879701896397 / 2 ^ 54 :: real"
  have walk: "getActiveLiquidity fl ((initializePoolAtTicks ?fresh
      [\<lparr>lowerTick = 0, upperTick = 20, liquidity = a\<rparr>,
       \<lparr>lowerTick = 10, upperTick = 30, liquidity = b\<rparr>])\<lparr>currentTick := Num 35\<rparr>)
      = fl (fl (fl (fl (0 + a) + b) + - a) + - b)" for fl a b
    by (simp add: initializePoolAtTicks_def addLiquidityAtTicks_def addTick_def getActiveLiquidity_def)
  have r1: "round_double (0 + ?a) = ?a"
    by (subst round_double_eval [where e = "- 56"]) (simp_all add: round_half_even_def)
  have r2: "round_double (?a + ?b) = 1351079888211149 / 2 ^ 52"
    by (subst round_double_eval [where e = "- 54"]) (simp_all add: round_half_even_def)
  have r3: "round_double (1351079888211149 / 2 ^ 52 + - ?a) = 7205759403792795 / 2 ^ 55"
    by (subst round_double_eval [where e = "- 55"]) (simp_all add: round_half_even_def)
  have r4: "round_double (7205759403792795 / 2 ^ 55 + - ?b) = 1 / 2 ^ 55"
    by (subst round_double_eval [where e = "- 107"]) (simp_all add: round_half_even_def)
  have active: "getActiveLiquidity round_double ((initializePoolAtTicks ?fresh
      [\<lparr>lowerTick = 0, upperTick = 20, liquidity = ?a\<rparr>,
       \<lparr>lowerTick = 10, upperTick = 30, liquidity = ?b\<rparr>])\<lparr>currentTick := Num 35\<rparr>) = 1 / 2 ^ 55"
    by (simp only: walk r1 r2 r3 r4)
  show ?thesis
    unfolding active by simp
qed

section \<open>Properties of the swap loop\<close>

lemma useRemaining_steps:
  "\<exists>st. swapSteps (sim (useRemaining fl z a l)) = swapSteps (sim l) @ [st] \<and> \<not> crossedTick st
        \<and> step_amountIn st = remainingAmount l"
  by (simp add: useRemaining_def Let_def)

lemma crossTick_steps:
  "\<exists>st. swapSteps (sim (crossTick fl z a nt amt l)) = swapSteps (sim l) @ [st] \<and> crossedTick st
        \<and> step_amountIn st = amt \<and> tickCrossed st = Some (index nt)"
  by (simp add: crossTick_def Let_def)

lemma crossTick_remaining:
  "remainingAmount (crossTick fl z a nt amt l) = fl (remainingAmount l - amt)"
  by (simp add: crossTick_def Let_def)

lemma swapIteration_Return:
  "swapIteration fl z l = Return \<longleftrightarrow> getActiveLiquidity fl (sim l) \<le> 0"
  by (auto simp: swapIteration_def Let_def split: if_splits option.splits)

lemma swapIteration_Break:
  assumes "swapIteration fl z l = Break l'"
  shows "\<exists>st. swapSteps (sim l') = swapSteps (sim l) @ [st] \<and> \<not> crossedTick st
           \<and> step_amountIn st = remainingAmount l \<and> remainingAmount l' = 0"
proof -
  from assms have "l' = useRemaining fl z (getActiveLiquidity fl (sim l)) l"
    by (auto simp: swapIteration_def Let_def split: if_splits option.splits)
  then show ?thesis
    using useRemaining_steps [of fl z "getActiveLiquidity fl (sim l)" l]
    by (auto simp: useRemaining_remaining)
qed

lemma swapIteration_Continue_cases:
  assumes "swapIteration fl z l = Continue l'"
  obtains (spent) "l' = useRemaining fl z (getActiveLiquidity fl (sim l)) l"
  | (crossed) nt where "findNextTick (sim l) z = Some nt"
      and "l' = crossTick fl z (getActiveLiquidity fl (sim l)) nt
                  (amountToNextTick fl z (getActiveLiquidity fl (sim l)) (sim l) nt) l"
  using assms
  by (auto simp: swapIteration_def Let_def split: if_splits option.splits)

lemma swapIteration_Continue_step:
  assumes "swapIteration fl z l = Continue l'"
  shows "\<exists>st. swapSteps (sim l') = swapSteps (sim l) @ [st]
           \<and> (if crossedTick st
               then remainingAmount l' = fl (remainingAmount l - step_amountIn st)
                    \<and> ticksAhead z (sim l') < ticksAhead z (sim l)
               else step_amountIn st = remainingAmount l \<and> remainingAmount l' = 0)"
  using assms
proof (cases rule: swapIteration_Continue_cases)
  case spent
  then show ?thesis
    using useRemaining_steps [of fl z "getActiveLiquidity fl (sim l)" l]
    by (auto simp: useRemaining_remaining)
next
  case (crossed nt)
  let ?a = "getActiveLiquidity fl (sim l)"
  let ?amt = "amountToNextTick fl z ?a (sim l) nt"
  obtain st where st: "swapSteps (sim l') = swapSteps (sim l) @ [st]" "crossedTick st"
      "step_amountIn st = ?amt"
    using crossTick_steps [of fl z ?a nt ?amt l] crossed(2) by auto
  have rem: "remainingAmount l' = fl (remainingAmount l - ?amt)"
    using crossed(2) by (simp add: crossTick_remaining)
  have ahead: "ticksAhead z (sim l') < ticksAhead z (sim l)"
    using crossed by (simp add: crossTick_ticksAhead)
  show ?thesis
    using st rem ahead by auto
qed

lemma swapLoop_Return:
  assumes "0 < remainingAmount l" and "getActiveLiquidity fl (sim l) \<le> 0"
  shows "swapLoop fl a p z l = (partialResult fl a p l, sim l)"
proof -
  have "swapIteration fl z l = Return" using assms(2) by (simp add: swapIteration_Return)
  then show ?thesis using assms(1) by (subst swapLoop.simps) simp
qed

lemma swapLoop_steps_bound:
  "length (steps (fst (swapLoop fl a p z l)))
     \<le> length (swapSteps (sim l)) + (if remainingAmount l > 0 then Suc (ticksAhead z (sim l)) else 0)"
proof (induction fl a p z l rule: swapLoop.induct)
  case (1 fl amountIn initial zeroForOne l)
  show ?case
  proof (cases "remainingAmount l > 0")
    case False
    then show ?thesis
      by (subst swapLoop.simps) (simp add: finalResult_def)
  next
    case True
    show ?thesis
    proof (cases "swapIteration fl zeroForOne l")
      case Return
      then show ?thesis using True
        by (subst swapLoop.simps) (simp add: partialResult_def)
    next
      case (Break l')
      then show ?thesis using True swapIteration_Break [OF Break]
        by (subst swapLoop.simps) (auto simp: finalResult_def)
    next
      case (Continue l')
      from swapIteration_Continue_step [OF Continue]
      obtain st where st: "swapSteps (sim l') = swapSteps (sim l) @ [st]" by blast
      have dec: "remainingAmount l' = 0 \<or> ticksAhead zeroForOne (sim l') < ticksAhead zeroForOne (sim l)"
        using Continue by (rule swapIteration_Continue)
      have ih: "length (steps (fst (swapLoop fl amountIn initial zeroForOne l')))
                 \<le> length (swapSteps (sim l')) +
                     (if remainingAmount l' > 0 then Suc (ticksAhead zeroForOne (sim l')) else 0)"
        using "1.IH" [OF True Continue] .
      have eq: "swapLoop fl amountIn initial zeroForOne l = swapLoop fl amountIn initial zeroForOne l'"
        using True Continue by (subst swapLoop.simps) simp
      show ?thesis
        using ih dec st True unfolding eq by (auto split: if_splits)
    qed
  qed
qed

lemma ticksAhead_le: "ticksAhead z s \<le> length (liquidityTicks s)"
  by (simp add: ticksAhead_def)

text \<open>
  One pool in doubles, used twice below: price \<open>0.25\<close>, so square-root price
  \<open>Q96 / 2\<close> and tick \<open>-13864\<close>; fee \<open>0.5\<close>; liquidity \<open>1e18\<close> between the ticks
  \<open>-20000\<close> and \<open>0\<close>. Buying the first asset, the next tick is \<open>0\<close>, at square-root
  price \<open>Q96\<close>, and the input needed to reach it is \<open>Q96\<close>: every operation on the way
  is exact. A pass that starts with more input than that crosses the tick.
\<close>

lemma crossing_amount:
  "amountToNextTick round_double False (10 ^ 18)
      \<lparr>feeTier = 1 / 2, initialPrice = 1 / 4, currentPrice = 1 / 4, currentSqrtPriceX96 = Q96 / 2,
       currentTick = Num (- 13864),
       liquidityTicks = [\<lparr>index = - 20000, liquidityNet = 10 ^ 18, liquidityGross = 10 ^ 18\<rparr>,
                         \<lparr>index = 0, liquidityNet = - (10 ^ 18), liquidityGross = 10 ^ 18\<rparr>],
       swapSteps = []\<rparr>
      \<lparr>index = 0, liquidityNet = - (10 ^ 18), liquidityGross = 10 ^ 18\<rparr> = Q96"
proof -
  have t1: "TICK_BASE powi 0 = 1" by simp
  have rd1: "round_double 1 = 1"
    by (subst round_double_eval [where e = "- 52"]) (simp_all add: round_half_even_def)
  have sq: "sqrt 1 = 1" by simp
  have m1: "round_double (1 * Q96) = Q96"
    by (subst round_double_eval [where e = 44]) (simp_all add: round_half_even_def Q96_def)
  have d1: "round_double (Q96 - Q96 / 2) = Q96 / 2"
    by (subst round_double_eval [where e = 43]) (simp_all add: round_half_even_def Q96_def)
  have ab: "\<bar>Q96 / 2\<bar> = Q96 / 2" by (simp add: Q96_def)
  have m2: "round_double (10 ^ 18 * (Q96 / 2)) = 10 ^ 18 * (Q96 / 2)"
    by (subst round_double_eval [where e = 102]) (simp_all add: round_half_even_def Q96_def)
  have f1: "round_double (1 - 1 / 2) = 1 / 2"
    by (subst round_double_eval [where e = "- 53"]) (simp_all add: round_half_even_def)
  have q1: "round_double (10 ^ 18 * (Q96 / 2) / (1 / 2)) = 10 ^ 18 * Q96"
    by (subst round_double_eval [where e = 103]) (simp_all add: round_half_even_def Q96_def)
  have q2: "round_double (10 ^ 18 * Q96 / SCALE_FACTOR) = Q96"
    by (subst round_double_eval [where e = 44]) (simp_all add: round_half_even_def Q96_def SCALE_FACTOR_def)
  show ?thesis
    unfolding amountToNextTick_def tickToPrice_def priceToSqrtPriceX96_def
    by (simp only: Let_def if_False tick.select_convs simulator.select_convs
          t1 rd1 sq m1 d1 ab m2 f1 q1 q2)
qed

lemma crossing_pass:
  fixes r :: real
  assumes "Q96 < r"
  shows "swapIteration round_double False
      \<lparr>sim = \<lparr>feeTier = 1 / 2, initialPrice = 1 / 4, currentPrice = 1 / 4, currentSqrtPriceX96 = Q96 / 2,
              currentTick = Num (- 13864),
              liquidityTicks = [\<lparr>index = - 20000, liquidityNet = 10 ^ 18, liquidityGross = 10 ^ 18\<rparr>,
                                \<lparr>index = 0, liquidityNet = - (10 ^ 18), liquidityGross = 10 ^ 18\<rparr>],
              swapSteps = []\<rparr>,
       remainingAmount = r, totalAmountOut = 0, feeAmount = 0\<rparr>
    = Continue (crossTick round_double False (10 ^ 18)
        \<lparr>index = 0, liquidityNet = - (10 ^ 18), liquidityGross = 10 ^ 18\<rparr> Q96
        \<lparr>sim = \<lparr>feeTier = 1 / 2, initialPrice = 1 / 4, currentPrice = 1 / 4, currentSqrtPriceX96 = Q96 / 2,
              currentTick = Num (- 13864),
              liquidityTicks = [\<lparr>index = - 20000, liquidityNet = 10 ^ 18, liquidityGross = 10 ^ 18\<rparr>,
                                \<lparr>index = 0, liquidityNet = - (10 ^ 18), liquidityGross = 10 ^ 18\<rparr>],
              swapSteps = []\<rparr>,
         remainingAmount = r, totalAmountOut = 0, feeAmount = 0\<rparr>)"
proof -
  let ?nt = "\<lparr>index = 0, liquidityNet = - (10 ^ 18), liquidityGross = 10 ^ 18\<rparr>"
  let ?p = "\<lparr>feeTier = 1 / 2, initialPrice = 1 / 4, currentPrice = 1 / 4, currentSqrtPriceX96 = Q96 / 2,
              currentTick = Num (- 13864),
              liquidityTicks = [\<lparr>index = - 20000, liquidityNet = 10 ^ 18, liquidityGross = 10 ^ 18\<rparr>, ?nt],
              swapSteps = []\<rparr>"
  have a0: "round_double (0 + 10 ^ 18) = 10 ^ 18"
    by (subst round_double_eval [where e = 7]) (simp_all add: round_half_even_def)
  have c1: "js_le (of_int (- 20000)) (Num (- 13864))" by simp
  have c2: "\<not> js_le (of_int 0) (Num (- 13864))" by simp
  have act: "getActiveLiquidity round_double ?p = 10 ^ 18"
    unfolding getActiveLiquidity_def
    by (simp only: simulator.select_convs activeLoop.simps tick.select_convs c1 c2 if_True if_False a0)
  have nt: "findNextTick ?p False = Some ?nt"
    by (simp add: findNextTick_def)
  have pos: "\<not> (10 ^ 18 :: real) \<le> 0" by simp
  have far: "\<not> r \<le> Q96" using assms by simp
  show ?thesis
    unfolding swapIteration_def
    by (simp only: swap_loop.select_convs act Let_def pos if_False nt option.case crossing_amount far)
qed

text \<open>
  C5 (as amended). \<open>executeSwap\<close> always returns, after at most one step record per
  stored tick and one more. A pass through the loop body returns at once exactly
  when it finds no positive active liquidity, and then appends nothing and leaves the
  pool as it is. Every other pass appends exactly one step record: one that does not
  cross a tick spends all the remaining input and leaves \<open>0\<close>; one that crosses a
  tick leaves the rounded difference of the remaining input and the step's input, and
  moves the current tick onto a stored tick, so that fewer stored ticks lie ahead.
\<close>

theorem swapLoop_progress:
  "(swapIteration fl z l = Return \<longleftrightarrow> getActiveLiquidity fl (sim l) \<le> 0)
   \<and> (0 < remainingAmount l \<and> getActiveLiquidity fl (sim l) \<le> 0 \<longrightarrow>
        snd (swapLoop fl a p z l) = sim l \<and> steps (fst (swapLoop fl a p z l)) = swapSteps (sim l))
   \<and> (\<forall>l'. swapIteration fl z l = Break l' \<longrightarrow>
         (\<exists>st. swapSteps (sim l') = swapSteps (sim l) @ [st] \<and> \<not> crossedTick st
               \<and> step_amountIn st = remainingAmount l \<and> remainingAmount l' = 0))
   \<and> (\<forall>l'. swapIteration fl z l = Continue l' \<longrightarrow>
         (\<exists>st. swapSteps (sim l') = swapSteps (sim l) @ [st]
            \<and> (if crossedTick st
                then remainingAmount l' = fl (remainingAmount l - step_amountIn st)
                     \<and> ticksAhead z (sim l') < ticksAhead z (sim l)
                else step_amountIn st = remainingAmount l \<and> remainingAmount l' = 0)))
   \<and> length (steps (fst (executeSwap fl s amountIn z))) \<le> Suc (length (liquidityTicks s))"
proof -
  have r: "swapIteration fl z l = Return \<longleftrightarrow> getActiveLiquidity fl (sim l) \<le> 0"
    by (rule swapIteration_Return)
  have e: "0 < remainingAmount l \<and> getActiveLiquidity fl (sim l) \<le> 0 \<longrightarrow>
        snd (swapLoop fl a p z l) = sim l \<and> steps (fst (swapLoop fl a p z l)) = swapSteps (sim l)"
    by (auto simp: swapLoop_Return partialResult_def)
  have b: "\<forall>l'. swapIteration fl z l = Break l' \<longrightarrow>
         (\<exists>st. swapSteps (sim l') = swapSteps (sim l) @ [st] \<and> \<not> crossedTick st
               \<and> step_amountIn st = remainingAmount l \<and> remainingAmount l' = 0)"
    by (intro allI impI) (rule swapIteration_Break)
  have c: "\<forall>l'. swapIteration fl z l = Continue l' \<longrightarrow>
         (\<exists>st. swapSteps (sim l') = swapSteps (sim l) @ [st]
            \<and> (if crossedTick st
                then remainingAmount l' = fl (remainingAmount l - step_amountIn st)
                     \<and> ticksAhead z (sim l') < ticksAhead z (sim l)
                else step_amountIn st = remainingAmount l \<and> remainingAmount l' = 0))"
    by (intro allI impI) (rule swapIteration_Continue_step)
  have n: "length (steps (fst (executeSwap fl s amountIn z))) \<le> Suc (length (liquidityTicks s))"
    using swapLoop_steps_bound [of fl amountIn "currentPrice s" z
        "\<lparr>sim = s\<lparr>swapSteps := []\<rparr>, remainingAmount = amountIn, totalAmountOut = 0, feeAmount = 0\<rparr>"]
      ticksAhead_le [of z "s\<lparr>swapSteps := []\<rparr>"]
    by (simp add: executeSwap_def split: if_splits)
  show ?thesis
    by (rule conjI [OF r conjI [OF e conjI [OF b conjI [OF c n]]]])
qed

text \<open>
  On the pool above a pass that starts with \<open>2 * Q96\<close> crosses the tick \<open>0\<close>: it
  appends one crossing record with the input \<open>Q96\<close>, leaves \<open>Q96\<close>, and no stored
  tick lies ahead any more.
\<close>

theorem swapLoop_progress_witness:
  "\<exists>l' st. swapIteration round_double False
        \<lparr>sim = \<lparr>feeTier = 1 / 2, initialPrice = 1 / 4, currentPrice = 1 / 4, currentSqrtPriceX96 = Q96 / 2,
                currentTick = Num (- 13864),
                liquidityTicks = [\<lparr>index = - 20000, liquidityNet = 10 ^ 18, liquidityGross = 10 ^ 18\<rparr>,
                                  \<lparr>index = 0, liquidityNet = - (10 ^ 18), liquidityGross = 10 ^ 18\<rparr>],
                swapSteps = []\<rparr>,
         remainingAmount = 2 * Q96, totalAmountOut = 0, feeAmount = 0\<rparr> = Continue l'
     \<and> swapSteps (sim l') = [st] \<and> crossedTick st \<and> tickCrossed st = Some 0
     \<and> step_amountIn st = Q96
     \<and> remainingAmount l' = Q96
     \<and> ticksAhead False (sim l') = 0"
proof -
  let ?nt = "\<lparr>index = 0, liquidityNet = - (10 ^ 18), liquidityGross = 10 ^ 18\<rparr>"
  let ?p = "\<lparr>feeTier = 1 / 2, initialPrice = 1 / 4, currentPrice = 1 / 4, currentSqrtPriceX96 = Q96 / 2,
                currentTick = Num (- 13864),
                liquidityTicks = [\<lparr>index = - 20000, liquidityNet = 10 ^ 18, liquidityGross = 10 ^ 18\<rparr>, ?nt],
                swapSteps = []\<rparr>"
  let ?l = "\<lparr>sim = ?p, remainingAmount = 2 * Q96, totalAmountOut = 0, feeAmount = 0\<rparr>"
  let ?l' = "crossTick round_double False (10 ^ 18) ?nt Q96 ?l"
  have more: "Q96 < 2 * Q96" by (simp add: Q96_def)
  have it: "swapIteration round_double False ?l = Continue ?l'"
    using more by (rule crossing_pass)
  have ahead1: "ticksAhead False ?p = 1"
    by (simp add: ticksAhead_def)
  from swapLoop_progress [of round_double False ?l 0 0 ?p 0] it
  obtain st where st: "swapSteps (sim ?l') = swapSteps (sim ?l) @ [st]"
    and rest: "if crossedTick st
          then remainingAmount ?l' = round_double (remainingAmount ?l - step_amountIn st)
               \<and> ticksAhead False (sim ?l') < ticksAhead False (sim ?l)
          else step_amountIn st = remainingAmount ?l \<and> remainingAmount ?l' = 0"
    by blast
  have cr: "crossedTick st" and tc: "tickCrossed st = Some 0" and am: "step_amountIn st = Q96"
    using st by (auto simp: crossTick_def Let_def)
  have sub: "round_double (2 * Q96 - Q96) = Q96"
    by (subst round_double_eval [where e = 44]) (simp_all add: round_half_even_def Q96_def)
  from rest cr am have r1: "remainingAmount ?l' = round_double (2 * Q96 - Q96)"
    and r3: "ticksAhead False (sim ?l') < ticksAhead False (sim ?l)"
    by simp_all
  have "swapIteration round_double False ?l = Continue ?l' \<and> swapSteps (sim ?l') = [st] \<and> crossedTick st
      \<and> tickCrossed st = Some 0 \<and> step_amountIn st = Q96
      \<and> remainingAmount ?l' = Q96
      \<and> ticksAhead False (sim ?l') = 0"
    using it st cr tc am r1 r3 ahead1 sub by simp
  then show ?thesis by blast
qed

text \<open>
  The claim as first stated has every pass append a record and strictly lower the
  remaining input. On a pool without liquidity the one pass of a swap of \<open>1\<close> is the
  early return: no record, and nothing of the input is spent. And on the pool above
  a pass that starts with \<open>2^160\<close> crosses the tick \<open>0\<close> for an input of \<open>Q96\<close>, and
  the remaining input is \<open>2^160\<close> as before: the subtraction rounds back to it.
\<close>

theorem swapLoop_starved_counterexample:
  "0 < remainingAmount
        \<lparr>sim = \<lparr>feeTier = FEE_MEDIUM, initialPrice = 1, currentPrice = 1, currentSqrtPriceX96 = Q96,
                currentTick = Num 0, liquidityTicks = [], swapSteps = []\<rparr>,
         remainingAmount = 1, totalAmountOut = 0, feeAmount = 0\<rparr>
   \<and> swapIteration round_double True
        \<lparr>sim = \<lparr>feeTier = FEE_MEDIUM, initialPrice = 1, currentPrice = 1, currentSqrtPriceX96 = Q96,
                currentTick = Num 0, liquidityTicks = [], swapSteps = []\<rparr>,
         remainingAmount = 1, totalAmountOut = 0, feeAmount = 0\<rparr> = Return
   \<and> steps (fst (executeSwap round_double
        \<lparr>feeTier = FEE_MEDIUM, initialPrice = 1, currentPrice = 1, currentSqrtPriceX96 = Q96,
         currentTick = Num 0, liquidityTicks = [], swapSteps = []\<rparr> 1 True)) = []
   \<and> result_amountIn (fst (executeSwap round_double
        \<lparr>feeTier = FEE_MEDIUM, initialPrice = 1, currentPrice = 1, currentSqrtPriceX96 = Q96,
         currentTick = Num 0, liquidityTicks = [], swapSteps = []\<rparr> 1 True)) = 0
   \<and> (\<exists>l'. swapIteration round_double False
        \<lparr>sim = \<lparr>feeTier = 1 / 2, initialPrice = 1 / 4, currentPrice = 1 / 4, currentSqrtPriceX96 = Q96 / 2,
                currentTick = Num (- 13864),
                liquidityTicks = [\<lparr>index = - 20000, liquidityNet = 10 ^ 18, liquidityGross = 10 ^ 18\<rparr>,
                                  \<lparr>index = 0, liquidityNet = - (10 ^ 18), liquidityGross = 10 ^ 18\<rparr>],
                swapSteps = []\<rparr>,
         remainingAmount = 2 ^ 160, totalAmountOut = 0, feeAmount = 0\<rparr> = Continue l'
       \<and> remainingAmount l' = 2 ^ 160)"
proof -
  let ?p = "\<lparr>feeTier = FEE_MEDIUM, initialPrice = 1, currentPrice = 1, currentSqrtPriceX96 = Q96,
         currentTick = Num 0, liquidityTicks = [], swapSteps = []\<rparr>"
  let ?l = "\<lparr>sim = ?p, remainingAmount = 1, totalAmountOut = 0, feeAmount = 0\<rparr>"
  have it: "swapIteration round_double True ?l = Return"
    by (simp add: swapIteration_def getActiveLiquidity_def)
  have run: "executeSwap round_double ?p 1 True = (partialResult round_double 1 1 ?l, ?p)"
    unfolding executeSwap_def
    by (subst swapLoop.simps) (simp add: swapIteration_def getActiveLiquidity_def)
  have starved: "0 < remainingAmount ?l \<and> swapIteration round_double True ?l = Return
      \<and> steps (fst (executeSwap round_double ?p 1 True)) = []
      \<and> result_amountIn (fst (executeSwap round_double ?p 1 True)) = 0"
    using it run by (simp add: partialResult_def round_double_zero)
  let ?nt = "\<lparr>index = 0, liquidityNet = - (10 ^ 18), liquidityGross = 10 ^ 18\<rparr>"
  let ?q = "\<lparr>feeTier = 1 / 2, initialPrice = 1 / 4, currentPrice = 1 / 4, currentSqrtPriceX96 = Q96 / 2,
                currentTick = Num (- 13864),
                liquidityTicks = [\<lparr>index = - 20000, liquidityNet = 10 ^ 18, liquidityGross = 10 ^ 18\<rparr>, ?nt],
                swapSteps = []\<rparr>"
  let ?m = "\<lparr>sim = ?q, remainingAmount = 2 ^ 160, totalAmountOut = 0, feeAmount = 0\<rparr>"
  have more: "Q96 < 2 ^ 160" by (simp add: Q96_def)
  have pass: "swapIteration round_double False ?m
      = Continue (crossTick round_double False (10 ^ 18) ?nt Q96 ?m)"
    using more by (rule crossing_pass)
  have sub: "round_double (2 ^ 160 - Q96) = 2 ^ 160"
    by (subst round_double_eval [where e = 107]) (simp_all add: round_half_even_def Q96_def)
  have same: "remainingAmount (crossTick round_double False (10 ^ 18) ?nt Q96 ?m) = 2 ^ 160"
    by (simp only: crossTick_remaining swap_loop.select_convs sub)
  have absorbed: "\<exists>l'. swapIteration round_double False ?m = Continue l' \<and> remainingAmount l' = 2 ^ 160"
    using pass same by blast
  from starved absorbed show ?thesis by (intro conjI) simp_all
qed

text \<open>
  C8. For every pool and either direction, \<open>executeSwap\<close> with \<open>amountIn = 0\<close>
  returns \<open>amountOut = 0\<close> and leaves \<open>currentTick\<close>, \<open>currentSqrtPriceX96\<close>,
  \<open>currentPrice\<close> and the stored ticks as they were; the only field it writes is
  \<open>swapSteps\<close>, which it empties. This holds whatever the rounding \<open>fl\<close> is.
\<close>

theorem executeSwap_zero_amount:
  "result_amountOut (fst (executeSwap fl s 0 z)) = 0
   \<and> result_amountIn (fst (executeSwap fl s 0 z)) = 0
   \<and> steps (fst (executeSwap fl s 0 z)) = []
   \<and> snd (executeSwap fl s 0 z) = s\<lparr>swapSteps := []\<rparr>
   \<and> currentTick (snd (executeSwap fl s 0 z)) = currentTick s
   \<and> currentSqrtPriceX96 (snd (executeSwap fl s 0 z)) = currentSqrtPriceX96 s
   \<and> currentPrice (snd (executeSwap fl s 0 z)) = currentPrice s
   \<and> liquidityTicks (snd (executeSwap fl s 0 z)) = liquidityTicks s"
  by (simp add: executeSwap_def swapLoop.simps [of fl 0] finalResult_def)

text \<open>
  C7. A swap of a non-negative amount requested while the active liquidity at the
  current tick is \<open>0\<close> or negative returns a result, with \<open>amountIn = 0\<close> consumed,
  \<open>amountOut = 0\<close>, no fees, no steps and the price unchanged. The amount consumed is
  computed, as \<open>amountIn - remainingAmount\<close>, and the exact result \<open>0\<close> of that
  subtraction is a double: the rounding returns it as it is, \<open>fl 0 = 0\<close>.
\<close>

theorem executeSwap_starved:
  fixes fl :: "real \<Rightarrow> real" and amountIn :: real
  assumes "fl 0 = 0" and "getActiveLiquidity fl s \<le> 0" and "0 \<le> amountIn"
  shows "result_amountIn (fst (executeSwap fl s amountIn z)) = 0
   \<and> result_amountOut (fst (executeSwap fl s amountIn z)) = 0
   \<and> feesCollected (fst (executeSwap fl s amountIn z)) = 0
   \<and> finalPrice (fst (executeSwap fl s amountIn z)) = currentPrice s
   \<and> steps (fst (executeSwap fl s amountIn z)) = []
   \<and> snd (executeSwap fl s amountIn z) = s\<lparr>swapSteps := []\<rparr>"
proof -
  let ?l = "\<lparr>sim = s\<lparr>swapSteps := []\<rparr>, remainingAmount = amountIn, totalAmountOut = 0, feeAmount = 0\<rparr>"
  have act: "getActiveLiquidity fl (sim ?l) \<le> 0"
    using assms(2) by (simp add: getActiveLiquidity_def)
  show ?thesis
  proof (cases "amountIn = 0")
    case True
    then show ?thesis
      by (simp add: executeSwap_def swapLoop.simps [of fl 0] finalResult_def)
  next
    case False
    then have "0 < remainingAmount ?l" using assms(3) by simp
    then have "swapLoop fl amountIn (currentPrice s) z ?l = (partialResult fl amountIn (currentPrice s) ?l, sim ?l)"
      using act by (rule swapLoop_Return)
    then show ?thesis
      using assms(1) by (simp add: executeSwap_def partialResult_def)
  qed
qed

theorem executeSwap_starved_witness:
  "round_double 0 = 0
   \<and> getActiveLiquidity round_double
      \<lparr>feeTier = FEE_MEDIUM, initialPrice = 1, currentPrice = 1, currentSqrtPriceX96 = Q96,
       currentTick = Num 0,
       liquidityTicks = [\<lparr>index = 2, liquidityNet = 5, liquidityGross = 5\<rparr>,
                         \<lparr>index = 4, liquidityNet = - 5, liquidityGross = 5\<rparr>],
       swapSteps = []\<rparr> = 0
   \<and> result_amountIn (fst (executeSwap round_double
      \<lparr>feeTier = FEE_MEDIUM, initialPrice = 1, currentPrice = 1, currentSqrtPriceX96 = Q96,
       currentTick = Num 0,
       liquidityTicks = [\<lparr>index = 2, liquidityNet = 5, liquidityGross = 5\<rparr>,
                         \<lparr>index = 4, liquidityNet = - 5, liquidityGross = 5\<rparr>],
       swapSteps = []\<rparr> 1 True)) = 0
   \<and> result_amountOut (fst (executeSwap round_double
      \<lparr>feeTier = FEE_MEDIUM, initialPrice = 1, currentPrice = 1, currentSqrtPriceX96 = Q96,
       currentTick = Num 0,
       liquidityTicks = [\<lparr>index = 2, liquidityNet = 5, liquidityGross = 5\<rparr>,
                         \<lparr>index = 4, liquidityNet = - 5, liquidityGross = 5\<rparr>],
       swapSteps = []\<rparr> 1 True)) = 0
   \<and> finalPrice (fst (executeSwap round_double
      \<lparr>feeTier = FEE_MEDIUM, initialPrice = 1, currentPrice = 1, currentSqrtPriceX96 = Q96,
       currentTick = Num 0,
       liquidityTicks = [\<lparr>index = 2, liquidityNet = 5, liquidityGross = 5\<rparr>,
                         \<lparr>index = 4, liquidityNet = - 5, liquidityGross = 5\<rparr>],
       swapSteps = []\<rparr> 1 True)) = 1
   \<and> steps (fst (executeSwap round_double
      \<lparr>feeTier = FEE_MEDIUM, initialPrice = 1, currentPrice = 1, currentSqrtPriceX96 = Q96,
       currentTick = Num 0,
       liquidityTicks = [\<lparr>index = 2, liquidityNet = 5, liquidityGross = 5\<rparr>,
                         \<lparr>index = 4, liquidityNet = - 5, liquidityGross = 5\<rparr>],
       swapSteps = []\<rparr> 1 True)) = []"
proof -
  let ?p = "\<lparr>feeTier = FEE_MEDIUM, initialPrice = 1, currentPrice = 1, currentSqrtPriceX96 = Q96,
       currentTick = Num 0,
       liquidityTicks = [\<lparr>index = 2, liquidityNet = 5, liquidityGross = 5\<rparr>,
                         \<lparr>index = 4, liquidityNet = - 5, liquidityGross = 5\<rparr>],
       swapSteps = []\<rparr>"
  have z: "round_double 0 = 0" by (rule round_double_zero)
  have a: "getActiveLiquidity round_double ?p = 0"
    by (simp add: getActiveLiquidity_def)
  then have le: "getActiveLiquidity round_double ?p \<le> 0" by simp
  have pos: "(0::real) \<le> 1" by simp
  from executeSwap_starved [OF z le pos, of True] z a show ?thesis by simp
qed

end
